theory Spec2Isabelle
  imports Main "HOL-Library.Word"
begin

unbundle bit_operations_syntax

section \<open>Strings\<close>

text \<open>
  A JavaScript string is modelled as a \<^typ>\<open>string\<close> whose characters are the code units
  0..255 (the Latin-1 range, which holds every ASCII address). \<open>toLowerCase\<close> maps the
  upper-case letters of that range to their lower-case partners; the multiplication sign
  (215) has none.
\<close>

definition lower_char :: "char \<Rightarrow> char" where
  "lower_char c =
     (let n = (of_char c :: nat)
      in if (65 \<le> n \<and> n \<le> 90) \<or> (192 \<le> n \<and> n \<le> 222 \<and> n \<noteq> 215)
         then char_of (n + 32) else c)"

definition toLowerCase :: "string \<Rightarrow> string" where
  "toLowerCase s = map lower_char s"

text \<open>
  \<open>toUpperCase\<close> is applied by the source to a hexadecimal digest only; it is modelled on
  the ASCII letters, which covers that argument.
\<close>

definition upper_char :: "char \<Rightarrow> char" where
  "upper_char c =
     (let n = (of_char c :: nat)
      in if 97 \<le> n \<and> n \<le> 122 then char_of (n - 32) else c)"

definition toUpperCase :: "string \<Rightarrow> string" where
  "toUpperCase s = map upper_char s"

text \<open>\<open>s.substring(0, n)\<close> is \<^term>\<open>take n s\<close>; \<open>xs.join(sep)\<close> is \<open>join\<close>.\<close>

fun join :: "string \<Rightarrow> string list \<Rightarrow> string" where
  "join sep [] = []"
| "join sep [x] = x"
| "join sep (x # y # ys) = x @ sep @ join sep (y # ys)"

text \<open>
  \<open>s.match(/.{1,4}/g)\<close>: the successive leftmost matches of one to four characters,
  each as long as possible; the dot matches no line terminator (line feed 10, carriage
  return 13). The result is \<open>null\<close> (\<^const>\<open>None\<close>) when nothing matches.
\<close>

definition line_terminator :: "char \<Rightarrow> bool" where
  "line_terminator c = ((of_char c :: nat) = 10 \<or> (of_char c :: nat) = 13)"

fun take_dots :: "nat \<Rightarrow> string \<Rightarrow> string" where
  "take_dots 0 s = []"
| "take_dots (Suc n) [] = []"
| "take_dots (Suc n) (c # cs) = (if line_terminator c then [] else c # take_dots n cs)"

function match_all_dot4 :: "string \<Rightarrow> string list" where
  "match_all_dot4 [] = []"
| "match_all_dot4 (c # cs) =
     (if line_terminator c then match_all_dot4 cs
      else take_dots 4 (c # cs) # match_all_dot4 (drop (length (take_dots 4 (c # cs))) (c # cs)))"
  by pat_completeness auto
termination
  by (relation "measure length") (auto simp: numeral_eq_Suc)

definition match_dot4 :: "string \<Rightarrow> string list option" where
  "match_dot4 s = (if match_all_dot4 s = [] then None else Some (match_all_dot4 s))"

section \<open>The MD5 digest\<close>

type_synonym u32 = "32 word"

text \<open>
  \<open>crypto.createHash('md5').update(s).digest('hex')\<close>: the string is encoded as UTF-8,
  padded, compressed block by block (RFC 1321), and the sixteen digest bytes are printed
  as thirty-two lower-case hexadecimal digits.
\<close>

definition utf8_char :: "char \<Rightarrow> nat list" where
  "utf8_char c =
     (let n = (of_char c :: nat)
      in if n < 128 then [n] else [192 + n div 64, 128 + n mod 64])"

definition utf8 :: "string \<Rightarrow> nat list" where
  "utf8 s = concat (map utf8_char s)"

text \<open>The \<open>k\<close> low bytes of a number, least significant first.\<close>

fun le_bytes :: "nat \<Rightarrow> nat \<Rightarrow> nat list" where
  "le_bytes 0 n = []"
| "le_bytes (Suc k) n = n mod 256 # le_bytes k (n div 256)"

definition word_bytes :: "u32 \<Rightarrow> nat list" where
  "word_bytes w = map (\<lambda>i. unat (drop_bit (8 * i) w AND 255)) [0..<4]"

definition md5_pad :: "nat list \<Rightarrow> nat list" where
  "md5_pad bs =
     bs @ [128] @ replicate ((119 - length bs mod 64) mod 64) 0 @ le_bytes 8 (8 * length bs)"

definition le_word :: "nat list \<Rightarrow> u32" where
  "le_word bs = foldr (\<lambda>b acc. of_nat b + push_bit 8 acc) bs 0"

definition block_words :: "nat list \<Rightarrow> u32 list" where
  "block_words blk = map (\<lambda>j. le_word (take 4 (drop (4 * j) blk))) [0..<16]"

definition md5_blocks :: "nat list \<Rightarrow> u32 list list" where
  "md5_blocks bs = map (\<lambda>k. block_words (take 64 (drop (64 * k) bs))) [0..<length bs div 64]"

definition md5_K :: "u32 list" where
  "md5_K =
    [0xd76aa478, 0xe8c7b756, 0x242070db, 0xc1bdceee,
     0xf57c0faf, 0x4787c62a, 0xa8304613, 0xfd469501,
     0x698098d8, 0x8b44f7af, 0xffff5bb1, 0x895cd7be,
     0x6b901122, 0xfd987193, 0xa679438e, 0x49b40821,
     0xf61e2562, 0xc040b340, 0x265e5a51, 0xe9b6c7aa,
     0xd62f105d, 0x02441453, 0xd8a1e681, 0xe7d3fbc8,
     0x21e1cde6, 0xc33707d6, 0xf4d50d87, 0x455a14ed,
     0xa9e3e905, 0xfcefa3f8, 0x676f02d9, 0x8d2a4c8a,
     0xfffa3942, 0x8771f681, 0x6d9d6122, 0xfde5380c,
     0xa4beea44, 0x4bdecfa9, 0xf6bb4b60, 0xbebfbc70,
     0x289b7ec6, 0xeaa127fa, 0xd4ef3085, 0x04881d05,
     0xd9d4d039, 0xe6db99e5, 0x1fa27cf8, 0xc4ac5665,
     0xf4292244, 0x432aff97, 0xab9423a7, 0xfc93a039,
     0x655b59c3, 0x8f0ccc92, 0xffeff47d, 0x85845dd1,
     0x6fa87e4f, 0xfe2ce6e0, 0xa3014314, 0x4e0811a1,
     0xf7537e82, 0xbd3af235, 0x2ad7d2bb, 0xeb86d391]"

definition md5_shift :: "nat list" where
  "md5_shift =
    [7, 12, 17, 22, 7, 12, 17, 22, 7, 12, 17, 22, 7, 12, 17, 22,
     5, 9, 14, 20, 5, 9, 14, 20, 5, 9, 14, 20, 5, 9, 14, 20,
     4, 11, 16, 23, 4, 11, 16, 23, 4, 11, 16, 23, 4, 11, 16, 23,
     6, 10, 15, 21, 6, 10, 15, 21, 6, 10, 15, 21, 6, 10, 15, 21]"

definition md5_mix :: "nat \<Rightarrow> u32 \<Rightarrow> u32 \<Rightarrow> u32 \<Rightarrow> u32" where
  "md5_mix i b c d =
     (if i < 16 then (b AND c) OR (NOT b AND d)
      else if i < 32 then (d AND b) OR (NOT d AND c)
      else if i < 48 then b XOR c XOR d
      else c XOR (b OR NOT d))"

definition md5_index :: "nat \<Rightarrow> nat" where
  "md5_index i =
     (if i < 16 then i
      else if i < 32 then (5 * i + 1) mod 16
      else if i < 48 then (3 * i + 5) mod 16
      else (7 * i) mod 16)"

definition rotl32 :: "nat \<Rightarrow> u32 \<Rightarrow> u32" where
  "rotl32 n w = push_bit n w OR drop_bit (32 - n) w"

definition md5_round :: "u32 list \<Rightarrow> u32 \<times> u32 \<times> u32 \<times> u32 \<Rightarrow> nat \<Rightarrow> u32 \<times> u32 \<times> u32 \<times> u32" where
  "md5_round m st i =
     (case st of (a, b, c, d) \<Rightarrow>
        (d, b + rotl32 (md5_shift ! i) (md5_mix i b c d + a + md5_K ! i + m ! md5_index i), b, c))"

definition md5_block :: "u32 \<times> u32 \<times> u32 \<times> u32 \<Rightarrow> u32 list \<Rightarrow> u32 \<times> u32 \<times> u32 \<times> u32" where
  "md5_block st m =
     (case st of (a0, b0, c0, d0) \<Rightarrow>
        (case foldl (md5_round m) st [0..<64] of (a, b, c, d) \<Rightarrow>
           (a0 + a, b0 + b, c0 + c, d0 + d)))"

definition md5_init :: "u32 \<times> u32 \<times> u32 \<times> u32" where
  "md5_init = (0x67452301, 0xefcdab89, 0x98badcfe, 0x10325476)"

definition md5_bytes :: "nat list \<Rightarrow> nat list" where
  "md5_bytes bs =
     (case foldl md5_block md5_init (md5_blocks (md5_pad bs)) of (a, b, c, d) \<Rightarrow>
        word_bytes a @ word_bytes b @ word_bytes c @ word_bytes d)"

definition hex_digit :: "nat \<Rightarrow> char" where
  "hex_digit n = ''0123456789abcdef'' ! (n mod 16)"

definition hex_byte :: "nat \<Rightarrow> string" where
  "hex_byte b = [hex_digit (b div 16 mod 16), hex_digit (b mod 16)]"

definition md5_hex :: "string \<Rightarrow> string" where
  "md5_hex s = concat (map hex_byte (md5_bytes (utf8 s)))"

section \<open>Key Deriver\<close>

datatype js_error = TypeError

text \<open>
  \<open>generateEmailBasedLicense\<close> of \<open>scripts/license-api.js\<close>. Calling \<open>join\<close> on the
  \<open>null\<close> that \<open>match\<close> returns for a string without a match raises a TypeError.
\<close>

definition generateEmailBasedLicense :: "string \<Rightarrow> js_error + string" where
  "generateEmailBasedLicense addr =
     (let hash = md5_hex (toLowerCase addr);
          chars = take 16 (toUpperCase hash)
      in case match_dot4 chars of
           None \<Rightarrow> Inl TypeError
         | Some groups \<Rightarrow> Inr (join ''-'' groups))"

text \<open>
  The reference definition, after the specification's words: the hexadecimal digest of
  the lower-cased email, upper-cased, cut to its first sixteen characters and written as
  four groups of four joined by dashes.
\<close>

definition derive_spec :: "string \<Rightarrow> string" where
  "derive_spec addr =
     (let h = take 16 (toUpperCase (md5_hex (toLowerCase addr)))
      in take 4 h @ ''-'' @ take 4 (drop 4 h) @ ''-'' @ take 4 (drop 8 h) @ ''-'' @ take 4 (drop 12 h))"

definition key_alphabet :: "char set" where
  "key_alphabet = set ''ABCDEF0123456789-''"

text \<open>The sixteen characters the key is made of.\<close>

definition key_digits :: "string \<Rightarrow> string" where
  "key_digits addr = take 16 (toUpperCase (md5_hex (toLowerCase addr)))"

section \<open>Regular expressions\<close>

text \<open>
  The address check of the handlers is \<open>/^[^\s@]+@[^\s@]+\.[^\s@]+$/.test(email)\<close>. The
  expression is kept as a value of \<open>rx\<close> and matched by derivatives; both anchors are
  present, so the whole string has to match.
\<close>

datatype rx = Nul | Eps | Chr "char \<Rightarrow> bool" | Alt rx rx | Seq rx rx | Star rx

fun nullable :: "rx \<Rightarrow> bool" where
  "nullable Nul = False"
| "nullable Eps = True"
| "nullable (Chr p) = False"
| "nullable (Alt r s) = (nullable r \<or> nullable s)"
| "nullable (Seq r s) = (nullable r \<and> nullable s)"
| "nullable (Star r) = True"

fun deriv :: "char \<Rightarrow> rx \<Rightarrow> rx" where
  "deriv c Nul = Nul"
| "deriv c Eps = Nul"
| "deriv c (Chr p) = (if p c then Eps else Nul)"
| "deriv c (Alt r s) = Alt (deriv c r) (deriv c s)"
| "deriv c (Seq r s) =
     (if nullable r then Alt (Seq (deriv c r) s) (deriv c s) else Seq (deriv c r) s)"
| "deriv c (Star r) = Seq (deriv c r) (Star r)"

fun rx_matches :: "rx \<Rightarrow> string \<Rightarrow> bool" where
  "rx_matches r [] = nullable r"
| "rx_matches r (c # cs) = rx_matches (deriv c r) cs"

definition plus1 :: "rx \<Rightarrow> rx" where
  "plus1 r = Seq r (Star r)"

text \<open>The class \<open>\s\<close> on the code units 0..255: tab, the four line and page breaks,
  space and the no-break space.\<close>

definition white_space :: "char \<Rightarrow> bool" where
  "white_space c = ((of_char c :: nat) \<in> {9, 10, 11, 12, 13, 32, 160})"

definition not_space_at :: "char \<Rightarrow> bool" where
  "not_space_at c = (\<not> white_space c \<and> c \<noteq> CHR ''@'')"

definition emailRegex :: rx where
  "emailRegex =
     Seq (plus1 (Chr not_space_at))
       (Seq (Chr (\<lambda>c. c = CHR ''@''))
         (Seq (plus1 (Chr not_space_at))
           (Seq (Chr (\<lambda>c. c = CHR ''.'')) (plus1 (Chr not_space_at)))))"

definition emailRegex_test :: "string \<Rightarrow> bool" where
  "emailRegex_test addr = rx_matches emailRegex addr"

section \<open>License Store\<close>

text \<open>
  The two tables of \<open>initializeDatabase\<close>. A row holds the columns of its table; columns
  hold the values the statements of this repository write, none of which writes NULL.
  Time stamps are readings of a clock, passed to every statement as \<open>now\<close>. A table is
  the list of its rows in their physical order, which is the order a \<open>SELECT\<close> without
  \<open>ORDER BY\<close> returns them in: an \<open>INSERT\<close> writes its row behind the rows present, and
  so does an \<open>UPDATE\<close> with the new version of each row it changes. The \<open>SERIAL\<close> columns
  draw from a sequence; a statement that draws a value and then fails on a unique
  constraint leaves the sequence advanced.
\<close>

datatype json =
    JNull
  | JBool bool
  | JNum int
  | JStr string
  | JTime nat
  | JArr "json list"
  | JObj "(string \<times> json) list"

record user_row =
  row_id :: nat
  license_key :: string
  email :: string
  status :: string
  plan_type :: string
  created_at :: nat
  updated_at :: nat

record data_row =
  ud_id :: nat
  ud_license_key :: string
  ud_data_type :: string
  ud_content :: json
  ud_created_at :: nat
  ud_updated_at :: nat

record db =
  users :: "user_row list"
  user_data :: "data_row list"
  users_seq :: nat
  user_data_seq :: nat

text \<open>
  What a store call can raise: the connection cannot be had, the server answers with an
  SQLSTATE code (\<open>22021\<close> a text parameter that is not valid in the server encoding,
  \<open>22P05\<close> a JSON text \<open>jsonb\<close> cannot hold, \<open>22001\<close> value too long, \<open>23505\<close> unique
  violation, \<open>23503\<close> foreign key violation, \<open>42P10\<close> no constraint matching an
  \<open>ON CONFLICT\<close> target), or the JavaScript code throws an \<open>Error\<close> of its own.
\<close>

datatype store_error = StoreUnavailable | SqlState string | Thrown string

text \<open>
  A text parameter that holds the character U+0000 is refused when the parameters are
  bound, before the statement runs (SQLSTATE 22021). \<open>JSON.stringify\<close> writes that
  character as an escape, which \<open>jsonb\<close> refuses in a string or a key (SQLSTATE 22P05).
\<close>

definition pg_text :: "string \<Rightarrow> bool" where
  "pg_text s = (CHR 0x00 \<notin> set s)"

fun jsonb_text :: "json \<Rightarrow> bool" where
  "jsonb_text (JStr s) = pg_text s"
| "jsonb_text (JArr xs) = list_all jsonb_text xs"
| "jsonb_text (JObj kvs) = list_all (\<lambda>kv. pg_text (fst kv) \<and> jsonb_text (snd kv)) kvs"
| "jsonb_text j = True"

text \<open>
  The unique indexes of the schema, each as its column list: \<open>users\<close> has its primary key
  and \<open>license_key VARCHAR(255) UNIQUE\<close>; \<open>user_data\<close> has its primary key only (the three
  \<open>CREATE INDEX\<close> statements build plain indexes).
\<close>

definition users_unique :: "string list list" where
  "users_unique = [[''id''], [''license_key'']]"

definition user_data_unique :: "string list list" where
  "user_data_unique = [[''id'']]"

text \<open>\<open>ON CONFLICT (columns)\<close> needs a unique index on exactly these columns.\<close>

definition arbiter_index :: "string list list \<Rightarrow> string list \<Rightarrow> bool" where
  "arbiter_index uniques target = list_ex (\<lambda>u. set u = set target) uniques"

text \<open>
  Storing into \<open>VARCHAR(n)\<close>: a longer string is an error, unless only spaces exceed the
  length, which are cut off. The error is raised before the statement draws from a
  sequence.
\<close>

definition store_varchar :: "nat \<Rightarrow> string \<Rightarrow> string option" where
  "store_varchar n s =
     (if length s \<le> n then Some s
      else if list_all (\<lambda>c. c = CHR '' '') (drop n s) then Some (take n s)
      else None)"

text \<open>\<open>INSERT INTO users (license_key, email, status, plan_type)
  VALUES ($1, $2, 'active', 'premium') RETURNING *\<close>\<close>

definition insert_users :: "nat \<Rightarrow> db \<Rightarrow> string \<Rightarrow> string \<Rightarrow> db \<times> (store_error + user_row)" where
  "insert_users now d k e =
     (if \<not> pg_text k \<or> \<not> pg_text e then (d, Inl (SqlState ''22021''))
      else case (store_varchar 255 k, store_varchar 255 e) of
           (Some k', Some e') \<Rightarrow>
             (let d1 = d\<lparr>users_seq := Suc (users_seq d)\<rparr>
              in if list_ex (\<lambda>r. license_key r = k') (users d) then (d1, Inl (SqlState ''23505''))
                 else
                   (let r = \<lparr>row_id = users_seq d, license_key = k', email = e', status = ''active'',
                             plan_type = ''premium'', created_at = now, updated_at = now\<rparr>
                    in (d1\<lparr>users := users d @ [r]\<rparr>, Inr r)))
         | _ \<Rightarrow> (d, Inl (SqlState ''22001'')))"

text \<open>\<open>INSERT INTO users ... ON CONFLICT (license_key) DO UPDATE SET email = EXCLUDED.email,
  status = 'active', updated_at = CURRENT_TIMESTAMP RETURNING *\<close>\<close>

definition upsert_users :: "nat \<Rightarrow> db \<Rightarrow> string \<Rightarrow> string \<Rightarrow> db \<times> (store_error + user_row)" where
  "upsert_users now d k e =
     (if \<not> pg_text k \<or> \<not> pg_text e then (d, Inl (SqlState ''22021''))
      else case (store_varchar 255 k, store_varchar 255 e) of
           (Some k', Some e') \<Rightarrow>
             if \<not> arbiter_index users_unique [''license_key''] then (d, Inl (SqlState ''42P10''))
             else
               (let d1 = d\<lparr>users_seq := Suc (users_seq d)\<rparr>
                in case filter (\<lambda>r. license_key r = k') (users d) of
                     [] \<Rightarrow>
                       (let r = \<lparr>row_id = users_seq d, license_key = k', email = e', status = ''active'',
                                 plan_type = ''premium'', created_at = now, updated_at = now\<rparr>
                        in (d1\<lparr>users := users d @ [r]\<rparr>, Inr r))
                   | old # _ \<Rightarrow>
                       (let r = old\<lparr>email := e', status := ''active'', updated_at := now\<rparr>
                        in (d1\<lparr>users := filter (\<lambda>x. license_key x \<noteq> k') (users d) @ [r]\<rparr>, Inr r)))
         | _ \<Rightarrow> (d, Inl (SqlState ''22001'')))"

text \<open>\<open>SELECT ... FROM users WHERE email = $1\<close>\<close>

definition select_users_by_email :: "db \<Rightarrow> string \<Rightarrow> store_error + user_row list" where
  "select_users_by_email d e =
     (if \<not> pg_text e then Inl (SqlState ''22021'') else Inr (filter (\<lambda>r. email r = e) (users d)))"

text \<open>\<open>SELECT ... FROM users WHERE license_key = $1 AND status = $2\<close>\<close>

definition select_users_by_key_status :: "db \<Rightarrow> string \<Rightarrow> string \<Rightarrow> store_error + user_row list" where
  "select_users_by_key_status d k st =
     (if \<not> pg_text k \<or> \<not> pg_text st then Inl (SqlState ''22021'')
      else Inr (filter (\<lambda>r. license_key r = k \<and> status r = st) (users d)))"

text \<open>\<open>UPDATE users SET status = $1, updated_at = CURRENT_TIMESTAMP WHERE email = $2\<close>\<close>

definition update_status_by_email :: "nat \<Rightarrow> db \<Rightarrow> string \<Rightarrow> string \<Rightarrow> store_error + db" where
  "update_status_by_email now d st e =
     (if \<not> pg_text st \<or> \<not> pg_text e then Inl (SqlState ''22021'')
      else case store_varchar 50 st of
             None \<Rightarrow> Inl (SqlState ''22001'')
           | Some st' \<Rightarrow>
               Inr (d\<lparr>users := filter (\<lambda>r. email r \<noteq> e) (users d)
                                 @ map (\<lambda>r. r\<lparr>status := st', updated_at := now\<rparr>)
                                     (filter (\<lambda>r. email r = e) (users d))\<rparr>))"

text \<open>\<open>INSERT INTO user_data (license_key, data_type, content) VALUES ($1, $2, $3)
  ON CONFLICT (license_key, data_type) DO UPDATE SET content = EXCLUDED.content,
  updated_at = CURRENT_TIMESTAMP RETURNING id, created_at, updated_at\<close>. The statement is
  refused when no unique index covers the conflict target; the foreign key to
  \<open>users(license_key)\<close> is checked for a new row.\<close>

definition upsert_user_data :: "nat \<Rightarrow> db \<Rightarrow> string \<Rightarrow> string \<Rightarrow> json \<Rightarrow> db \<times> (store_error + data_row)" where
  "upsert_user_data now d k t c =
     (if \<not> pg_text k \<or> \<not> pg_text t then (d, Inl (SqlState ''22021''))
      else if \<not> jsonb_text c then (d, Inl (SqlState ''22P05''))
      else case (store_varchar 255 k, store_varchar 50 t) of
           (Some k', Some t') \<Rightarrow>
             if \<not> arbiter_index user_data_unique [''license_key'', ''data_type'']
             then (d, Inl (SqlState ''42P10''))
             else
               (let d1 = d\<lparr>user_data_seq := Suc (user_data_seq d)\<rparr>
                in case filter (\<lambda>r. ud_license_key r = k' \<and> ud_data_type r = t') (user_data d) of
                     [] \<Rightarrow>
                       if \<not> list_ex (\<lambda>u. license_key u = k') (users d)
                       then (d1, Inl (SqlState ''23503''))
                       else
                         (let r = \<lparr>ud_id = user_data_seq d, ud_license_key = k', ud_data_type = t',
                                   ud_content = c, ud_created_at = now, ud_updated_at = now\<rparr>
                          in (d1\<lparr>user_data := user_data d @ [r]\<rparr>, Inr r))
                   | old # _ \<Rightarrow>
                       (let r = old\<lparr>ud_content := c, ud_updated_at := now\<rparr>
                        in (d1\<lparr>user_data :=
                                 filter (\<lambda>x. \<not> (ud_license_key x = k' \<and> ud_data_type x = t')) (user_data d)
                                   @ [r]\<rparr>,
                            Inr r)))
         | _ \<Rightarrow> (d, Inl (SqlState ''22001'')))"

text \<open>\<open>SELECT content, updated_at FROM user_data WHERE license_key = $1 AND data_type = $2
  ORDER BY updated_at DESC LIMIT 1\<close>: of the matching rows, the first with the greatest
  time stamp.\<close>

fun latest :: "data_row list \<Rightarrow> data_row option" where
  "latest [] = None"
| "latest (r # rs) =
     (case latest rs of
        None \<Rightarrow> Some r
      | Some m \<Rightarrow> if ud_updated_at r \<ge> ud_updated_at m then Some r else Some m)"

definition select_user_data :: "db \<Rightarrow> string \<Rightarrow> string \<Rightarrow> store_error + data_row option" where
  "select_user_data d k t =
     (if \<not> pg_text k \<or> \<not> pg_text t then Inl (SqlState ''22021'')
      else Inr (latest (filter (\<lambda>r. ud_license_key r = k \<and> ud_data_type r = t) (user_data d))))"

subsection \<open>The functions of \<open>scripts/database.js\<close>\<close>

text \<open>
  Each function takes \<open>conn\<close>: whether \<open>pool.connect()\<close> succeeds. \<open>verifyLicense\<close> and
  \<open>getUserData\<close> catch every error, of the connection or of the query, and return their
  not-found value; \<open>activateLicense\<close> and \<open>saveUserData\<close> throw it again.
\<close>

record verify_result =
  valid :: bool
  user :: "user_row option"

definition verifyLicense :: "bool \<Rightarrow> db \<Rightarrow> string \<Rightarrow> verify_result" where
  "verifyLicense conn d licenseKey =
     (if \<not> conn then \<lparr>valid = False, user = None\<rparr>
      else case select_users_by_key_status d licenseKey ''active'' of
             Inr (r # _) \<Rightarrow> \<lparr>valid = True, user = Some r\<rparr>
           | Inr [] \<Rightarrow> \<lparr>valid = False, user = None\<rparr>
           | Inl err \<Rightarrow> \<lparr>valid = False, user = None\<rparr>)"

definition activateLicense :: "bool \<Rightarrow> nat \<Rightarrow> db \<Rightarrow> string \<Rightarrow> string \<Rightarrow> db \<times> (store_error + user_row)" where
  "activateLicense conn now d licenseKey addr =
     (if \<not> conn then (d, Inl StoreUnavailable) else upsert_users now d licenseKey addr)"

definition saveUserData :: "bool \<Rightarrow> nat \<Rightarrow> db \<Rightarrow> string \<Rightarrow> string \<Rightarrow> json \<Rightarrow> db \<times> (store_error + data_row)" where
  "saveUserData conn now d licenseKey dataType c =
     (if \<not> conn then (d, Inl StoreUnavailable)
      else case select_users_by_key_status d licenseKey ''active'' of
             Inl err \<Rightarrow> (d, Inl err)
           | Inr [] \<Rightarrow> (d, Inl (Thrown ''Invalid or inactive license''))
           | Inr (u # _) \<Rightarrow> upsert_user_data now d licenseKey dataType c)"

definition getUserData :: "bool \<Rightarrow> db \<Rightarrow> string \<Rightarrow> string \<Rightarrow> (json \<times> nat) option" where
  "getUserData conn d licenseKey dataType =
     (if \<not> conn then None
      else case select_user_data d licenseKey dataType of
             Inr (Some r) \<Rightarrow> Some (ud_content r, ud_updated_at r)
           | Inr None \<Rightarrow> None
           | Inl err \<Rightarrow> None)"

section \<open>The routes of \<open>scripts/license-api.js\<close>\<close>

text \<open>
  A handler takes the request fields and the store, and returns the store and the response:
  the HTTP status and the JSON body. Request fields that the handlers treat as strings
  are strings here; \<open>!x\<close> holds of the empty string as it does of a missing field. An
  error of a store call, of the connection (\<open>conn\<close>) or of the query, lands in the
  handler's \<open>catch\<close>. The rate limiter and the console are left out.
\<close>

record response =
  code :: nat
  body :: json

definition failure :: "nat \<Rightarrow> string \<Rightarrow> response" where
  "failure c msg = \<lparr>code = c, body = JObj [(''success'', JBool False), (''error'', JStr msg)]\<rparr>"

definition ok :: "(string \<times> json) list \<Rightarrow> response" where
  "ok kvs = \<lparr>code = 200, body = JObj ((''success'', JBool True) # kvs)\<rparr>"

fun field :: "string \<Rightarrow> json \<Rightarrow> json option" where
  "field k (JObj kvs) = map_of kvs k"
| "field k j = None"

text \<open>JavaScript's truthiness, for \<open>!data\<close>; \<^const>\<open>None\<close> is \<open>undefined\<close>.\<close>

fun truthy :: "json option \<Rightarrow> bool" where
  "truthy None = False"
| "truthy (Some JNull) = False"
| "truthy (Some (JBool b)) = b"
| "truthy (Some (JNum n)) = (n \<noteq> 0)"
| "truthy (Some (JStr s)) = (s \<noteq> [])"
| "truthy (Some j) = True"

text \<open>\<open>POST /api/verify-license\<close>\<close>

definition verify_license :: "bool \<Rightarrow> db \<Rightarrow> string \<Rightarrow> response" where
  "verify_license conn d licenseKey =
     (if licenseKey = [] then failure 400 ''Invalid license key format''
      else
        (let licenseResult = verifyLicense conn d licenseKey
         in if valid licenseResult then
              (case user licenseResult of
                 Some u \<Rightarrow>
                   ok [(''message'', JStr ''License is valid''),
                       (''user'', JObj [(''email'', JStr (email u)), (''plan'', JStr (plan_type u)),
                                        (''status'', JStr (status u)), (''activated'', JTime (created_at u))])]
               | None \<Rightarrow> failure 500 ''Internal server error'')
            else failure 404 ''License not found or inactive''))"

text \<open>\<open>POST /api/activate-license\<close>\<close>

definition activate_license :: "bool \<Rightarrow> nat \<Rightarrow> db \<Rightarrow> string \<Rightarrow> string \<Rightarrow> db \<times> response" where
  "activate_license conn now d licenseKey addr =
     (if licenseKey = [] \<or> addr = [] then (d, failure 400 ''License key and email are required'')
      else if \<not> emailRegex_test addr then (d, failure 400 ''Invalid email format'')
      else case activateLicense conn now d licenseKey addr of
             (d', Inr u) \<Rightarrow>
               (d', ok [(''message'', JStr ''License activated successfully''),
                        (''user'', JObj [(''email'', JStr (email u)), (''plan'', JStr (plan_type u)),
                                         (''status'', JStr (status u)), (''activated'', JTime (created_at u))])])
           | (d', Inl err) \<Rightarrow>
               if err = SqlState ''23505'' then (d', failure 409 ''License already activated'')
               else (d', failure 500 ''Failed to activate license''))"

text \<open>\<open>POST /api/sync/upload\<close>; \<open>dataType\<close> defaults to \<open>'notes'\<close>. The time stamp
  \<open>result.updated_at\<close> is an object, hence truthy, and \<open>||\<close> yields it.\<close>

definition sync_upload ::
  "bool \<Rightarrow> bool \<Rightarrow> nat \<Rightarrow> db \<Rightarrow> string \<Rightarrow> string option \<Rightarrow> json option \<Rightarrow> db \<times> response" where
  "sync_upload conn1 conn2 now d licenseKey dataType_opt data =
     (let dataType = (case dataType_opt of None \<Rightarrow> ''notes'' | Some t \<Rightarrow> t)
      in if licenseKey = [] \<or> \<not> truthy data then (d, failure 400 ''License key and data are required'')
         else if \<not> valid (verifyLicense conn1 d licenseKey)
         then (d, failure 403 ''Invalid or inactive license'')
         else case saveUserData conn2 now d licenseKey dataType (case data of Some j \<Rightarrow> j | None \<Rightarrow> JNull) of
                (d', Inr r) \<Rightarrow>
                  (d', ok [(''message'', JStr ''Data uploaded successfully''),
                           (''uploaded_at'', JTime (ud_updated_at r))])
              | (d', Inl err) \<Rightarrow> (d', failure 500 ''Failed to upload data''))"

text \<open>\<open>GET /api/sync/download/:licenseKey\<close>\<close>

definition sync_download :: "bool \<Rightarrow> bool \<Rightarrow> db \<Rightarrow> string \<Rightarrow> string option \<Rightarrow> response" where
  "sync_download conn1 conn2 d licenseKey dataType_opt =
     (let dataType = (case dataType_opt of None \<Rightarrow> ''notes'' | Some t \<Rightarrow> t)
      in if \<not> valid (verifyLicense conn1 d licenseKey)
         then failure 403 ''Invalid or inactive license''
         else case getUserData conn2 d licenseKey dataType of
                Some (c, lastModified) \<Rightarrow> ok [(''data'', c), (''last_modified'', JTime lastModified)]
              | None \<Rightarrow> ok [(''data'', JNull), (''message'', JStr ''No data found for this license'')])"

text \<open>\<open>POST /api/generate-license\<close>\<close>

definition generate_license :: "bool \<Rightarrow> nat \<Rightarrow> db \<Rightarrow> string \<Rightarrow> db \<times> response" where
  "generate_license conn now d addr =
     (if addr = [] then (d, failure 400 ''Email is required'')
      else if \<not> emailRegex_test addr then (d, failure 400 ''Invalid email format'')
      else if \<not> conn then (d, failure 500 ''Failed to generate license'')
      else case select_users_by_email d addr of
             Inl err \<Rightarrow> (d, failure 500 ''Failed to generate license'')
           | Inr (u # _) \<Rightarrow>
               if status u = ''active'' then
                 (d, ok [(''message'', JStr ''License already exists for this email''),
                         (''licenseKey'', JStr (license_key u)), (''action'', JStr ''existing'')])
               else
                 (case update_status_by_email now d ''active'' addr of
                    Inl err \<Rightarrow> (d, failure 500 ''Failed to generate license'')
                  | Inr d' \<Rightarrow>
                      (d', ok [(''message'', JStr ''License reactivated''),
                               (''licenseKey'', JStr (license_key u)), (''action'', JStr ''reactivated'')]))
           | Inr [] \<Rightarrow>
               (case generateEmailBasedLicense addr of
                  Inl err \<Rightarrow> (d, failure 500 ''Failed to generate license'')
                | Inr licenseKey \<Rightarrow>
                    (case insert_users now d licenseKey addr of
                       (d', Inr newUser) \<Rightarrow>
                         (d', ok [(''message'', JStr ''License generated successfully''),
                                  (''licenseKey'', JStr licenseKey), (''action'', JStr ''created''),
                                  (''user'', JObj [(''email'', JStr addr), (''plan'', JStr ''premium''),
                                                   (''status'', JStr ''active''),
                                                   (''created'', JTime (created_at newUser))])])
                     | (d', Inl err) \<Rightarrow>
                         if err = SqlState ''23505''
                         then (d', failure 409 ''License generation conflict. Please try again.'')
                         else (d', failure 500 ''Failed to generate license''))))"

text \<open>\<open>POST /api/request-license\<close>\<close>

definition request_license :: "bool \<Rightarrow> nat \<Rightarrow> db \<Rightarrow> string \<Rightarrow> db \<times> response" where
  "request_license conn now d addr =
     (if addr = [] then (d, failure 400 ''Email is required'')
      else if \<not> emailRegex_test addr then (d, failure 400 ''Invalid email format'')
      else if \<not> conn then (d, failure 500 ''Failed to process license request'')
      else case select_users_by_email d addr of
             Inl err \<Rightarrow> (d, failure 500 ''Failed to process license request'')
           | Inr (u # _) \<Rightarrow>
               (d, ok [(''message'', JStr ''License found for this email''),
                       (''licenseKey'', JStr (license_key u)), (''status'', JStr (status u)),
                       (''created'', JTime (created_at u))])
           | Inr [] \<Rightarrow>
               (case generateEmailBasedLicense addr of
                  Inl err \<Rightarrow> (d, failure 500 ''Failed to process license request'')
                | Inr licenseKey \<Rightarrow>
                    (case insert_users now d licenseKey addr of
                       (d', Inr newUser) \<Rightarrow>
                         (d', ok [(''message'', JStr ''License created successfully''),
                                  (''licenseKey'', JStr licenseKey),
                                  (''user'', JObj [(''email'', JStr addr), (''plan'', JStr ''premium''),
                                                   (''status'', JStr ''active''),
                                                   (''created'', JTime (created_at newUser))])])
                     | (d', Inl err) \<Rightarrow> (d', failure 500 ''Failed to process license request''))))"


section \<open>The webhook of \<open>scripts/stripe-webhook.js\<close>\<close>

text \<open>
  \<open>generateLicenseKey\<close> draws sixteen characters; \<open>rnd i\<close> is the value of
  \<open>Math.floor(Math.random() * chars.length)\<close> at round \<open>i\<close>. \<open>charAt\<close> is the empty string
  out of range.
\<close>

definition charAt :: "string \<Rightarrow> nat \<Rightarrow> string" where
  "charAt s i = (if i < length s then [s ! i] else [])"

definition key_chars :: string where
  "key_chars = ''ABCDEFGHIJKLMNOPQRSTUVWXYZ0123456789''"

definition generateLicenseKey :: "(nat \<Rightarrow> nat) \<Rightarrow> string" where
  "generateLicenseKey rnd =
     foldl (\<lambda>result i. (if i > 0 \<and> i mod 4 = 0 then result @ ''-'' else result) @ charAt key_chars (rnd i))
       [] [0..<16]"

text \<open>
  \<open>handleCheckoutCompleted\<close>: \<open>customerEmail\<close> is \<open>session.customer_details?.email\<close>. An
  error of \<open>activateLicense\<close> is caught and logged.
\<close>

definition handleCheckoutCompleted :: "bool \<Rightarrow> nat \<Rightarrow> (nat \<Rightarrow> nat) \<Rightarrow> db \<Rightarrow> string option \<Rightarrow> db" where
  "handleCheckoutCompleted conn now rnd d customerEmail =
     (case customerEmail of
        None \<Rightarrow> d
      | Some addr \<Rightarrow>
          if addr = [] then d
          else fst (activateLicense conn now d (generateLicenseKey rnd) addr))"

text \<open>
  What a handler finds in \<open>req.body\<close>: nothing a parser has read, the object that
  \<open>express.json()\<close> or \<open>express.urlencoded()\<close> has parsed, or the raw bytes that
  \<open>express.raw()\<close> has kept. A parser reads a body that no parser has read before it and
  whose content type is its own, and passes every other request on as it is.
\<close>

datatype content_type = ApplicationJson | FormUrlencoded | OtherContent

datatype req_body = Unparsed | ParsedObject | RawBuffer

definition express_json :: "content_type \<Rightarrow> req_body \<Rightarrow> req_body" where
  "express_json ct b = (if b = Unparsed \<and> ct = ApplicationJson then ParsedObject else b)"

definition express_urlencoded :: "content_type \<Rightarrow> req_body \<Rightarrow> req_body" where
  "express_urlencoded ct b = (if b = Unparsed \<and> ct = FormUrlencoded then ParsedObject else b)"

text \<open>\<open>express.raw({ type: 'application/json' })\<close>\<close>

definition express_raw :: "content_type \<Rightarrow> req_body \<Rightarrow> req_body" where
  "express_raw ct b = (if b = Unparsed \<and> ct = ApplicationJson then RawBuffer else b)"

text \<open>
  A request to \<open>/webhook\<close>: its content type, whether its \<open>stripe-signature\<close> header is a
  valid signature of its raw body under the endpoint secret, and the event the body
  holds. \<open>stripe.webhooks.constructEvent\<close> returns that event when it is handed the raw
  body and the signature is valid, and throws otherwise.
\<close>

record webhook_request =
  body_type :: content_type
  signature_valid :: bool
  event_type :: string
  customer_email :: "string option"

definition constructEvent :: "req_body \<Rightarrow> bool \<Rightarrow> bool" where
  "constructEvent payload sig_ok = (payload = RawBuffer \<and> sig_ok)"

text \<open>
  The handler of the \<open>/webhook\<close> route. Of the event kinds only a completed checkout
  touches the store.
\<close>

definition webhook_handler ::
  "bool \<Rightarrow> nat \<Rightarrow> (nat \<Rightarrow> nat) \<Rightarrow> db \<Rightarrow> req_body \<Rightarrow> webhook_request \<Rightarrow> db \<times> response" where
  "webhook_handler conn now rnd d payload rq =
     (if \<not> constructEvent payload (signature_valid rq)
      then (d, \<lparr>code = 400, body = JStr ''Webhook Error''\<rparr>)
      else if event_type rq = ''checkout.session.completed''
      then (handleCheckoutCompleted conn now rnd d (customer_email rq),
            \<lparr>code = 200, body = JObj [(''received'', JBool True)]\<rparr>)
      else (d, \<lparr>code = 200, body = JObj [(''received'', JBool True)]\<rparr>))"

section \<open>The server of \<open>server.js\<close>\<close>

text \<open>
  The server mounts \<open>express.json()\<close> and \<open>express.urlencoded()\<close> for every request and
  the routes after them. \<open>setupStripeWebhook\<close> mounts a test answer when Stripe is not
  configured, and otherwise the \<open>/webhook\<close> route with \<open>express.raw\<close> in front of its
  handler.
\<close>

definition server_webhook ::
  "bool \<Rightarrow> bool \<Rightarrow> nat \<Rightarrow> (nat \<Rightarrow> nat) \<Rightarrow> db \<Rightarrow> webhook_request \<Rightarrow> db \<times> response" where
  "server_webhook stripeConfigured conn now rnd d rq =
     (let b = express_urlencoded (body_type rq) (express_json (body_type rq) Unparsed)
      in if \<not> stripeConfigured
         then (d, \<lparr>code = 200,
                  body = JObj [(''message'', JStr ''Stripe webhook endpoint (test mode)''),
                               (''note'', JStr ''Configure STRIPE_SECRET_KEY to enable real webhooks'')]\<rparr>)
         else webhook_handler conn now rnd d (express_raw (body_type rq) b) rq)"

text \<open>
  \<open>setupRoutes\<close> mounts the license routes when the store was reached at start-up
  (\<open>databaseConnected\<close>), and otherwise answers verify-license with 503.
\<close>

definition server_verify_license :: "bool \<Rightarrow> bool \<Rightarrow> db \<Rightarrow> string \<Rightarrow> response" where
  "server_verify_license databaseConnected conn d licenseKey =
     (if databaseConnected then verify_license conn d licenseKey
      else \<lparr>code = 503,
            body = JObj [(''error'', JStr ''Database not available''),
                         (''message'', JStr ''License verification temporarily unavailable'')]\<rparr>)"

section \<open>Example stores\<close>

text \<open>Stores on which the handlers are run below: the fresh store, and stores holding the
  License of \<open>test@example.com\<close>, active or inactive, with and without notes.\<close>

definition db_empty :: db where
  "db_empty = \<lparr>users = [], user_data = [], users_seq = 1, user_data_seq = 1\<rparr>"

definition alice_row :: user_row where
  "alice_row =
     \<lparr>row_id = 1, license_key = ''5550-2F40-DC8B-7C76'', email = ''test@example.com'',
      status = ''active'', plan_type = ''premium'', created_at = 10, updated_at = 10\<rparr>"

definition db_alice :: db where
  "db_alice = \<lparr>users = [alice_row], user_data = [], users_seq = 2, user_data_seq = 1\<rparr>"

definition db_alice_inactive :: db where
  "db_alice_inactive =
     \<lparr>users = [alice_row\<lparr>status := ''inactive'', updated_at := 20\<rparr>], user_data = [],
      users_seq = 2, user_data_seq = 1\<rparr>"

definition notes_row :: data_row where
  "notes_row =
     \<lparr>ud_id = 1, ud_license_key = ''5550-2F40-DC8B-7C76'', ud_data_type = ''notes'',
      ud_content = JArr [JStr ''first note''], ud_created_at = 12, ud_updated_at = 15\<rparr>"

definition db_alice_notes :: db where
  "db_alice_notes = \<lparr>users = [alice_row], user_data = [notes_row], users_seq = 2, user_data_seq = 2\<rparr>"

text \<open>An address that passes the address check and holds the character U+0000.\<close>

definition nul_address :: string where
  "nul_address = ''a'' @ [CHR 0x00] @ ''@b.c''"

section \<open>Predicates of the verification\<close>

text \<open>
  \<open>empty_rx r\<close>: the expression matches no string at all; \<open>chars_ok P r\<close>: every
  character the expression can consume satisfies \<open>P\<close>.
\<close>

fun empty_rx :: "rx \<Rightarrow> bool" where
  "empty_rx Nul = True"
| "empty_rx Eps = False"
| "empty_rx (Chr p) = False"
| "empty_rx (Alt r s) = (empty_rx r \<and> empty_rx s)"
| "empty_rx (Seq r s) = (empty_rx r \<or> empty_rx s)"
| "empty_rx (Star r) = False"

fun chars_ok :: "(char \<Rightarrow> bool) \<Rightarrow> rx \<Rightarrow> bool" where
  "chars_ok P Nul = True"
| "chars_ok P Eps = True"
| "chars_ok P (Chr p) = (\<forall>c. p c \<longrightarrow> P c)"
| "chars_ok P (Alt r s) = (chars_ok P r \<and> chars_ok P s)"
| "chars_ok P (Seq r s) = (chars_ok P r \<and> chars_ok P s)"
| "chars_ok P (Star r) = chars_ok P r"

text \<open>
  At most one License row per normalized email: the lower-cased addresses of the rows are
  pairwise different.
\<close>

definition one_license_per_email :: "db \<Rightarrow> bool" where
  "one_license_per_email d = distinct (map (\<lambda>r. toLowerCase (email r)) (users d))"

text \<open>
  A store as request-license builds it: license keys are pairwise different (the
  \<open>UNIQUE\<close> constraint of the table) and every row carries the key derived from its
  address.
\<close>

definition derived_store :: "db \<Rightarrow> bool" where
  "derived_store d =
     (distinct (map license_key (users d))
      \<and> list_all (\<lambda>r. license_key r = derive_spec (email r)) (users d))"

text \<open>
  The derived key of an address is free for it: no row of another address holds it (no
  case variant of the address and no colliding digest is stored).
\<close>

definition key_free_for :: "db \<Rightarrow> string \<Rightarrow> bool" where
  "key_free_for d addr = list_all (\<lambda>r. license_key r \<noteq> derive_spec addr \<or> email r = addr) (users d)"

text \<open>A client that sends request-license for one address again and again, at the
  clock readings given, with the store in reach.\<close>

fun request_many :: "db \<Rightarrow> nat list \<Rightarrow> string \<Rightarrow> db \<times> response list" where
  "request_many d [] addr = (d, [])"
| "request_many d (t # ts) addr =
     (case request_license True t d addr of
        (d1, r) \<Rightarrow> (case request_many d1 ts addr of (d2, rs) \<Rightarrow> (d2, r # rs)))"

text \<open>The row that request-license inserts for an address, and its two answers.\<close>

definition derived_row :: "nat \<Rightarrow> nat \<Rightarrow> string \<Rightarrow> user_row" where
  "derived_row i now addr =
     \<lparr>row_id = i, license_key = derive_spec addr, email = addr, status = ''active'',
      plan_type = ''premium'', created_at = now, updated_at = now\<rparr>"

definition license_created :: "string \<Rightarrow> nat \<Rightarrow> response" where
  "license_created addr now =
     ok [(''message'', JStr ''License created successfully''),
         (''licenseKey'', JStr (derive_spec addr)),
         (''user'', JObj [(''email'', JStr addr), (''plan'', JStr ''premium''),
                          (''status'', JStr ''active''), (''created'', JTime now)])]"

definition license_found :: "user_row \<Rightarrow> response" where
  "license_found u =
     ok [(''message'', JStr ''License found for this email''),
         (''licenseKey'', JStr (license_key u)), (''status'', JStr (status u)),
         (''created'', JTime (created_at u))]"

definition with_row :: "db \<Rightarrow> user_row \<Rightarrow> db" where
  "with_row d r = d\<lparr>users_seq := Suc (users_seq d), users := users d @ [r]\<rparr>"

text \<open>
  The request-license handler awaits its \<open>SELECT\<close> and then its \<open>INSERT\<close>.
  \<open>request_license_insert\<close> is the handler from the point where the \<open>SELECT\<close> has returned
  no row; \<open>request_license_race\<close> is the schedule of two requests for one address in which
  both run their \<open>SELECT\<close> on the same store before either runs its \<open>INSERT\<close>.
\<close>

definition request_license_insert :: "nat \<Rightarrow> db \<Rightarrow> string \<Rightarrow> db \<times> response" where
  "request_license_insert now d addr =
     (case generateEmailBasedLicense addr of
        Inl err \<Rightarrow> (d, failure 500 ''Failed to process license request'')
      | Inr licenseKey \<Rightarrow>
          (case insert_users now d licenseKey addr of
             (d', Inr newUser) \<Rightarrow>
               (d', ok [(''message'', JStr ''License created successfully''),
                        (''licenseKey'', JStr licenseKey),
                        (''user'', JObj [(''email'', JStr addr), (''plan'', JStr ''premium''),
                                         (''status'', JStr ''active''),
                                         (''created'', JTime (created_at newUser))])])
           | (d', Inl err) \<Rightarrow> (d', failure 500 ''Failed to process license request'')))"

definition request_license_race :: "nat \<Rightarrow> nat \<Rightarrow> db \<Rightarrow> string \<Rightarrow> db \<times> response \<times> response" where
  "request_license_race t1 t2 d addr =
     (case request_license_insert t1 d addr of
        (d1, r1) \<Rightarrow> (case request_license_insert t2 d1 addr of (d2, r2) \<Rightarrow> (d2, r1, r2)))"

text \<open>
  The store after the licenses of an address have been reactivated at a given time: the
  rows of other addresses as they were, followed by the rows of the address, each with
  status \<open>active\<close> and the new time stamp.
\<close>

definition reactivated :: "nat \<Rightarrow> db \<Rightarrow> string \<Rightarrow> db" where
  "reactivated now d addr =
     d\<lparr>users := filter (\<lambda>r. email r \<noteq> addr) (users d)
                   @ map (\<lambda>r. r\<lparr>status := ''active'', updated_at := now\<rparr>)
                       (filter (\<lambda>r. email r = addr) (users d))\<rparr>"

section \<open>Verification: Key Deriver\<close>

text \<open>The digest agrees with the test suite of RFC 1321, on one block and on two.\<close>

lemma md5_rfc1321_abc: "md5_hex ''abc'' = ''900150983cd24fb0d6963f7d28e17f72''"
  by code_simp

lemma md5_rfc1321_alphanumeric:
  "md5_hex ''ABCDEFGHIJKLMNOPQRSTUVWXYZabcdefghijklmnopqrstuvwxyz0123456789''
     = ''d174ab98d277d9f5a5611c2c9f419d9f''"
  by code_simp

lemma length_word_bytes: "length (word_bytes w) = 4"
  by (simp add: word_bytes_def)

lemma length_md5_bytes: "length (md5_bytes bs) = 16"
  by (simp add: md5_bytes_def length_word_bytes split: prod.splits)

lemma length_hex_byte: "length (hex_byte b) = 2"
  by (simp add: hex_byte_def)

lemma length_concat_hex: "length (concat (map hex_byte bs)) = 2 * length bs"
  by (induction bs) (simp_all add: length_hex_byte)

lemma length_md5_hex: "length (md5_hex s) = 32"
  by (simp add: md5_hex_def length_concat_hex length_md5_bytes)

lemma hex_digit_mem: "hex_digit n \<in> set ''0123456789abcdef''"
  unfolding hex_digit_def by (rule nth_mem) simp

lemma set_hex_byte: "set (hex_byte b) \<subseteq> set ''0123456789abcdef''"
  using hex_digit_mem [of "b div 16 mod 16"] hex_digit_mem [of "b mod 16"]
  unfolding hex_byte_def by simp

lemma set_md5_hex: "set (md5_hex s) \<subseteq> set ''0123456789abcdef''"
  unfolding md5_hex_def using set_hex_byte by fastforce

lemma upper_hex_all:
  "list_all (\<lambda>c. upper_char c \<in> set ''0123456789ABCDEF'' \<and> \<not> line_terminator (upper_char c))
     ''0123456789abcdef''"
  by code_simp

lemma upper_hex:
  "c \<in> set ''0123456789abcdef'' \<Longrightarrow>
     upper_char c \<in> set ''0123456789ABCDEF'' \<and> \<not> line_terminator (upper_char c)"
  using upper_hex_all unfolding list_all_iff by blast

lemma length_key_digits: "length (key_digits a) = 16"
  by (simp add: key_digits_def toUpperCase_def length_md5_hex)

lemma key_digits_hex:
  assumes "c \<in> set (key_digits a)"
  shows "c \<in> set ''0123456789ABCDEF'' \<and> \<not> line_terminator c"
proof -
  from assms have "c \<in> set (toUpperCase (md5_hex (toLowerCase a)))"
    unfolding key_digits_def by (rule in_set_takeD)
  then obtain x where x: "x \<in> set (md5_hex (toLowerCase a))" and c: "c = upper_char x"
    unfolding toUpperCase_def by auto
  from x set_md5_hex have "x \<in> set ''0123456789abcdef''" by blast
  with c upper_hex show ?thesis by blast
qed

lemma take_dots_all:
  "\<forall>c\<in>set s. \<not> line_terminator c \<Longrightarrow> take_dots n s = take n s"
  by (induction n s rule: take_dots.induct) auto

lemma match_all_step:
  assumes "\<forall>c\<in>set s. \<not> line_terminator c" "s \<noteq> []"
  shows "match_all_dot4 s = take 4 s # match_all_dot4 (drop 4 s)"
proof -
  from assms(2) obtain c cs where s: "s = c # cs" by (cases s) auto
  have t: "take_dots 4 (c # cs) = take 4 (c # cs)" using take_dots_all assms(1) s by blast
  have "\<not> line_terminator c" using assms(1) s by simp
  then show ?thesis unfolding s match_all_dot4.simps t by (simp add: min_def)
qed

lemma match_all_16:
  assumes "\<forall>c\<in>set s. \<not> line_terminator c" "length s = 16"
  shows "match_all_dot4 s = [take 4 s, take 4 (drop 4 s), take 4 (drop 8 s), take 4 (drop 12 s)]"
proof -
  have a: "\<And>k. \<forall>c\<in>set (drop k s). \<not> line_terminator c" using assms(1) by (meson in_set_dropD)
  have 1: "match_all_dot4 s = take 4 s # match_all_dot4 (drop 4 s)"
    using match_all_step assms by fastforce
  have 2: "match_all_dot4 (drop 4 s) = take 4 (drop 4 s) # match_all_dot4 (drop 8 s)"
    using match_all_step [OF a [of 4]] assms(2) by fastforce
  have 3: "match_all_dot4 (drop 8 s) = take 4 (drop 8 s) # match_all_dot4 (drop 12 s)"
    using match_all_step [OF a [of 8]] assms(2) by fastforce
  have 4: "match_all_dot4 (drop 12 s) = take 4 (drop 12 s) # match_all_dot4 (drop 16 s)"
    using match_all_step [OF a [of 12]] assms(2) by fastforce
  have 5: "match_all_dot4 (drop 16 s) = []" using assms(2) by simp
  show ?thesis by (simp only: 1 2 3 4 5)
qed

lemma generate_is_derive: "generateEmailBasedLicense a = Inr (derive_spec a)"
proof -
  have nl: "\<forall>c\<in>set (key_digits a). \<not> line_terminator c" using key_digits_hex by blast
  have m: "match_all_dot4 (key_digits a) =
      [take 4 (key_digits a), take 4 (drop 4 (key_digits a)),
       take 4 (drop 8 (key_digits a)), take 4 (drop 12 (key_digits a))]"
    by (rule match_all_16 [OF nl length_key_digits])
  show ?thesis
    unfolding generateEmailBasedLicense_def derive_spec_def Let_def match_dot4_def
      key_digits_def [symmetric] m
    by simp
qed

lemma length_derive_spec: "length (derive_spec a) = 19"
  using length_key_digits [of a]
  unfolding derive_spec_def Let_def key_digits_def [symmetric] by simp

lemma set_derive_spec: "set (derive_spec a) \<subseteq> key_alphabet"
proof
  fix c assume "c \<in> set (derive_spec a)"
  then have "c = CHR ''-'' \<or> c \<in> set (key_digits a)"
    unfolding derive_spec_def Let_def key_digits_def [symmetric]
    by (auto dest: in_set_takeD in_set_dropD)
  then show "c \<in> key_alphabet"
  proof
    assume "c = CHR ''-''" then show ?thesis by (simp add: key_alphabet_def)
  next
    assume "c \<in> set (key_digits a)"
    then have "c \<in> set ''0123456789ABCDEF''" using key_digits_hex by blast
    then show ?thesis unfolding key_alphabet_def by auto
  qed
qed

lemma generate_lower_cong:
  "toLowerCase a' = toLowerCase a \<Longrightarrow> generateEmailBasedLicense a' = generateEmailBasedLicense a"
  by (simp add: generateEmailBasedLicense_def)

text \<open>
  C2. For every email string, \<open>generateEmailBasedLicense\<close> returns the reference key of the
  specification: the upper-cased hexadecimal MD5 digest of the lower-cased email, cut to
  sixteen characters and joined in four dash-separated groups of four. The key has 19
  characters over \<open>[A-F0-9-]\<close>; it is a function of the lower-cased email alone (no
  counter, no randomness), so case variants agree, as \<open>A@B.com\<close> and \<open>a@b.com\<close> do.
\<close>

theorem derive_refines_spec:
  "generateEmailBasedLicense a = Inr (derive_spec a)
   \<and> length (derive_spec a) = 19
   \<and> set (derive_spec a) \<subseteq> key_alphabet
   \<and> (toLowerCase a' = toLowerCase a \<longrightarrow> generateEmailBasedLicense a' = generateEmailBasedLicense a)
   \<and> generateEmailBasedLicense ''A@B.com'' = generateEmailBasedLicense ''a@b.com''"
proof -
  have "toLowerCase ''A@B.com'' = toLowerCase ''a@b.com''" by code_simp
  then have "generateEmailBasedLicense ''A@B.com'' = generateEmailBasedLicense ''a@b.com''"
    by (rule generate_lower_cong)
  then show ?thesis
    using generate_is_derive length_derive_spec set_derive_spec generate_lower_cong by blast
qed

theorem derive_refines_spec_witness:
  "generateEmailBasedLicense ''test@example.com'' = Inr ''5550-2F40-DC8B-7C76''
   \<and> length ''5550-2F40-DC8B-7C76'' = 19
   \<and> generateEmailBasedLicense ''Test@Example.COM'' = Inr ''5550-2F40-DC8B-7C76''"
proof -
  have v: "derive_spec ''test@example.com'' = ''5550-2F40-DC8B-7C76''" by code_simp
  have l: "toLowerCase ''Test@Example.COM'' = toLowerCase ''test@example.com''" by code_simp
  from derive_refines_spec [of "''test@example.com''" "''Test@Example.COM''"] v l
  show ?thesis by simp
qed

section \<open>Verification: the address check\<close>

lemma empty_rx_not_nullable: "empty_rx r \<Longrightarrow> \<not> nullable r"
  by (induction r) auto

lemma empty_rx_deriv: "empty_rx r \<Longrightarrow> empty_rx (deriv c r)"
  by (induction r) (auto simp: empty_rx_not_nullable)

lemma empty_rx_no_match: "empty_rx r \<Longrightarrow> \<not> rx_matches r s"
  by (induction s arbitrary: r) (auto simp: empty_rx_not_nullable empty_rx_deriv)

lemma chars_ok_deriv: "chars_ok P r \<Longrightarrow> chars_ok P (deriv c r)"
  by (induction r) auto

lemma deriv_bad_char_empty: "chars_ok P r \<Longrightarrow> \<not> P c \<Longrightarrow> empty_rx (deriv c r)"
  by (induction r) auto

lemma rx_matches_chars: "chars_ok P r \<Longrightarrow> rx_matches r s \<Longrightarrow> list_all P s"
proof (induction s arbitrary: r)
  case Nil
  then show ?case by simp
next
  case (Cons c cs)
  have m: "rx_matches (deriv c r) cs" using Cons.prems(2) by simp
  have "P c"
  proof (rule ccontr)
    assume "\<not> P c"
    then have "empty_rx (deriv c r)" using Cons.prems(1) by (rule deriv_bad_char_empty [rotated])
    then show False using m empty_rx_no_match by blast
  qed
  moreover have "list_all P cs" using Cons.IH [OF chars_ok_deriv [OF Cons.prems(1)] m] .
  ultimately show ?case by simp
qed

lemma emailRegex_chars: "chars_ok (\<lambda>c. c \<noteq> CHR '' '') emailRegex"
  by (auto simp: emailRegex_def plus1_def not_space_at_def white_space_def)

lemma email_no_space: "emailRegex_test a \<Longrightarrow> CHR '' '' \<notin> set a"
  using rx_matches_chars [OF emailRegex_chars, of a]
  by (auto simp: emailRegex_test_def list_all_iff)

lemma email_not_empty: "emailRegex_test a \<Longrightarrow> a \<noteq> []"
  by (auto simp: emailRegex_test_def emailRegex_def plus1_def)

lemma store_varchar_email:
  assumes "emailRegex_test a"
  shows "store_varchar n a = (if length a \<le> n then Some a else None)"
proof (cases "length a \<le> n")
  case True
  then show ?thesis by (simp add: store_varchar_def)
next
  case False
  then have "drop n a \<noteq> []" by simp
  then obtain c where c: "c \<in> set (drop n a)" by (cases "drop n a") auto
  then have "c \<in> set a" by (rule in_set_dropD)
  then have "c \<noteq> CHR '' ''" using email_no_space [OF assms] by auto
  then have "\<not> list_all (\<lambda>c. c = CHR '' '') (drop n a)" using c by (auto simp: list_all_iff)
  then show ?thesis using False by (simp add: store_varchar_def)
qed

section \<open>Verification: the store\<close>

lemma pg_text_derive_spec: "pg_text (derive_spec a)"
proof -
  have "CHR 0x00 \<notin> set ''ABCDEF0123456789-''" by simp
  then show ?thesis
    using set_derive_spec [of a] unfolding pg_text_def key_alphabet_def by blast
qed

lemma pg_text_literals:
  "pg_text ''active''" "pg_text ''test@example.com''" "pg_text ''5550-2F40-DC8B-7C76''"
  "pg_text ''notes''" "pg_text ''x@y.com''" "pg_text ''nobody@example.com''"
  "pg_text ''mallory@example.org''" "pg_text ''new@example.com''"
  "pg_text ''AAAA-AAAA-AAAA-AAAA''" "pg_text ''BBBB-BBBB-BBBB-BBBB''" "pg_text ''ABCD-EFGH-IJKL-MNOP''"
  by (simp_all add: pg_text_def)


lemma nul_address_valid: "emailRegex_test nul_address"
  by (simp add: emailRegex_test_def emailRegex_def plus1_def not_space_at_def white_space_def
      nul_address_def)

lemma arbiter_users: "arbiter_index users_unique [''license_key'']"
  by (simp add: arbiter_index_def users_unique_def)

lemma no_arbiter_user_data: "\<not> arbiter_index user_data_unique [''license_key'', ''data_type'']"
  by (simp add: arbiter_index_def user_data_unique_def)

lemma select_by_email_cases:
  "select_users_by_email d a = Inr rows \<Longrightarrow> pg_text a \<and> rows = filter (\<lambda>r. email r = a) (users d)"
  by (auto simp: select_users_by_email_def split: if_splits)

section \<open>Verification: Data Sync Gate\<close>

lemma verifyLicense_invalid:
  assumes "\<nexists>u us. select_users_by_key_status d k ''active'' = Inr (u # us)"
  shows "\<not> valid (verifyLicense conn d k)"
  using assms by (auto simp: verifyLicense_def split: sum.splits list.splits)

text \<open>
  C9. When the licenseKey does not resolve to a License with status active, download
  answers 403 "Invalid or inactive license", and so does every upload that carries its
  fields (a non-empty licenseKey and data); in every case the upload leaves the store as
  it was, so nothing is written to UserData. This holds whether or not the store can be
  reached.
\<close>

theorem sync_gate_rejects_inactive:
  assumes "\<nexists>u us. select_users_by_key_status d licenseKey ''active'' = Inr (u # us)"
  shows "sync_download conn1 conn2 d licenseKey dataType = failure 403 ''Invalid or inactive license''
    \<and> (licenseKey \<noteq> [] \<and> truthy content \<longrightarrow>
          sync_upload conn1 conn2 now d licenseKey dataType content
            = (d, failure 403 ''Invalid or inactive license''))
    \<and> fst (sync_upload conn1 conn2 now d licenseKey dataType content) = d
    \<and> code (snd (sync_upload conn1 conn2 now d licenseKey dataType content)) \<in> {400, 403}"
  using verifyLicense_invalid [OF assms, of conn1]
  by (simp add: sync_download_def sync_upload_def Let_def failure_def)

theorem sync_gate_rejects_inactive_witness:
  "select_users_by_key_status db_alice_inactive ''5550-2F40-DC8B-7C76'' ''active'' = Inr []
   \<and> sync_download True True db_alice_inactive ''5550-2F40-DC8B-7C76'' None
       = failure 403 ''Invalid or inactive license''
   \<and> sync_upload True True 30 db_alice_inactive ''5550-2F40-DC8B-7C76'' None (Some (JArr [JStr ''n'']))
       = (db_alice_inactive, failure 403 ''Invalid or inactive license'')"
proof -
  have h: "select_users_by_key_status db_alice_inactive ''5550-2F40-DC8B-7C76'' ''active'' = Inr []"
    by (simp add: select_users_by_key_status_def pg_text_literals db_alice_inactive_def alice_row_def)
  then have n: "\<nexists>u us. select_users_by_key_status db_alice_inactive ''5550-2F40-DC8B-7C76'' ''active''
      = Inr (u # us)" by simp
  from sync_gate_rejects_inactive [OF n, of True True None "Some (JArr [JStr ''n''])" 30] h
  show ?thesis by simp
qed

section \<open>Verification: disclosure by check-email\<close>



section \<open>Verification: store failures on the read paths\<close>

text \<open>
  What the read paths make of a failing store call, for every store and key:
  verify-license answers 404, download answers 403 when the license check is the call
  that fails and 200 with \<open>data = null\<close> when the data read is; the branches of the two
  handlers that answer 500 are never reached through it.
\<close>

lemma read_paths_swallow_outage:
  "(licenseKey \<noteq> [] \<longrightarrow>
      verify_license False d licenseKey = failure 404 ''License not found or inactive'')
   \<and> sync_download False conn2 d licenseKey dataType = failure 403 ''Invalid or inactive license''
   \<and> (valid (verifyLicense True d licenseKey) \<longrightarrow>
        sync_download True False d licenseKey dataType
          = ok [(''data'', JNull), (''message'', JStr ''No data found for this license'')])"
  by (simp add: verify_license_def sync_download_def verifyLicense_def getUserData_def)

text \<open>
  C8 on the code. The License of \<open>test@example.com\<close> is active and has notes. With the
  store in reach verify-license and download answer with them. With the store out of
  reach verify-license answers 404 "License not found or inactive" and download answers
  403 "Invalid or inactive license", and a download whose license check went through
  but whose data read failed answers 200 with \<open>data = null\<close>: the failure is swallowed by
  \<open>verifyLicense\<close> and \<open>getUserData\<close> and reaches neither handler's 500 branch, whereas
  the same server answers verify-license with 503 when the store was out of reach at
  start-up.
\<close>

theorem store_outage_answered_not_found:
  "verify_license True db_alice_notes ''5550-2F40-DC8B-7C76'' =
     ok [(''message'', JStr ''License is valid''),
         (''user'', JObj [(''email'', JStr ''test@example.com''), (''plan'', JStr ''premium''),
                          (''status'', JStr ''active''), (''activated'', JTime 10)])]
   \<and> verify_license False db_alice_notes ''5550-2F40-DC8B-7C76''
       = failure 404 ''License not found or inactive''
   \<and> sync_download False False db_alice_notes ''5550-2F40-DC8B-7C76'' None
       = failure 403 ''Invalid or inactive license''
   \<and> sync_download True True db_alice_notes ''5550-2F40-DC8B-7C76'' None
       = ok [(''data'', JArr [JStr ''first note'']), (''last_modified'', JTime 15)]
   \<and> sync_download True False db_alice_notes ''5550-2F40-DC8B-7C76'' None
       = ok [(''data'', JNull), (''message'', JStr ''No data found for this license'')]
   \<and> server_verify_license True False db_alice_notes ''5550-2F40-DC8B-7C76''
       = failure 404 ''License not found or inactive''
   \<and> code (server_verify_license False False db_alice_notes ''5550-2F40-DC8B-7C76'') = 503"
  by (simp add: server_verify_license_def verify_license_def sync_download_def verifyLicense_def
      getUserData_def select_users_by_key_status_def select_user_data_def pg_text_literals
      db_alice_notes_def alice_row_def notes_row_def)

section \<open>Verification: activation under a key that exists\<close>

lemma upsert_users_no_23505: "snd (upsert_users now d k e) \<noteq> Inl (SqlState ''23505'')"
  by (simp add: upsert_users_def arbiter_users Let_def split: option.splits list.splits)

lemma activate_license_not_409: "code (snd (activate_license conn now d k e)) \<noteq> 409"
proof (cases "activateLicense conn now d k e")
  case (Pair d' res)
  have "res \<noteq> Inl (SqlState ''23505'')"
    using Pair upsert_users_no_23505 [of now d k e]
    by (auto simp: activateLicense_def split: if_splits)
  then show ?thesis
    using Pair by (auto simp: activate_license_def failure_def ok_def split: sum.splits)
qed

text \<open>
  C7 on the code. \<open>POST /api/activate-license\<close> with the key of the License of
  \<open>test@example.com\<close> and the address \<open>mallory@example.org\<close> answers 200 "License
  activated successfully" and hands the row to the new address; and no request at all is
  answered 409, since \<open>activateLicense\<close> resolves the key conflict by updating the row.
\<close>

theorem activate_existing_key_rebinds:
  "activate_license True 30 db_alice ''5550-2F40-DC8B-7C76'' ''mallory@example.org'' =
     (\<lparr>users = [alice_row\<lparr>email := ''mallory@example.org'', updated_at := 30\<rparr>], user_data = [],
       users_seq = 3, user_data_seq = 1\<rparr>,
      ok [(''message'', JStr ''License activated successfully''),
          (''user'', JObj [(''email'', JStr ''mallory@example.org''), (''plan'', JStr ''premium''),
                           (''status'', JStr ''active''), (''activated'', JTime 10)])])
   \<and> code (snd (activate_license conn now d licenseKey addr)) \<noteq> 409"
proof -
  have m: "emailRegex_test ''mallory@example.org''"
    by (simp add: emailRegex_test_def emailRegex_def plus1_def not_space_at_def white_space_def)
  have "activate_license True 30 db_alice ''5550-2F40-DC8B-7C76'' ''mallory@example.org'' =
     (\<lparr>users = [alice_row\<lparr>email := ''mallory@example.org'', updated_at := 30\<rparr>], user_data = [],
       users_seq = 3, user_data_seq = 1\<rparr>,
      ok [(''message'', JStr ''License activated successfully''),
          (''user'', JObj [(''email'', JStr ''mallory@example.org''), (''plan'', JStr ''premium''),
                           (''status'', JStr ''active''), (''activated'', JTime 10)])])"
    using m
    by (simp add: activate_license_def activateLicense_def upsert_users_def arbiter_users
        pg_text_literals store_varchar_def db_alice_def alice_row_def Let_def)
  then show ?thesis using activate_license_not_409 by blast
qed

section \<open>Verification: writes of user data\<close>

lemma upsert_user_data_fails:
  "fst (upsert_user_data now d k t c) = d \<and> (\<forall>r. snd (upsert_user_data now d k t c) \<noteq> Inr r)"
  by (simp add: upsert_user_data_def no_arbiter_user_data split: option.splits)

lemma saveUserData_fails:
  "fst (saveUserData conn now d k t c) = d \<and> (\<forall>r. snd (saveUserData conn now d k t c) \<noteq> Inr r)"
  using upsert_user_data_fails [of now d k t c]
  by (simp add: saveUserData_def split: sum.splits list.splits)

text \<open>
  C5 on the code. The \<open>user_data\<close> table has no unique index on
  \<open>(license_key, data_type)\<close>, so the \<open>ON CONFLICT\<close> statement of \<open>saveUserData\<close> is rejected
  (SQLSTATE 42P10) on every call: an upload under the active License of
  \<open>test@example.com\<close> answers 500 "Failed to upload data", the first as well as a repeated
  one, and no call of \<open>saveUserData\<close> returns a row or changes the store.
\<close>

theorem upload_always_fails:
  "sync_upload True True 30 db_alice ''5550-2F40-DC8B-7C76'' (Some ''notes'') (Some (JArr [JStr ''n'']))
     = (db_alice, failure 500 ''Failed to upload data'')
   \<and> saveUserData True 30 db_alice ''5550-2F40-DC8B-7C76'' ''notes'' (JArr [JStr ''n''])
     = (db_alice, Inl (SqlState ''42P10''))
   \<and> fst (saveUserData conn now d licenseKey dataType c) = d
   \<and> (\<forall>r. snd (saveUserData conn now d licenseKey dataType c) \<noteq> Inr r)"
proof -
  have s: "saveUserData True 30 db_alice ''5550-2F40-DC8B-7C76'' ''notes'' (JArr [JStr ''n''])
     = (db_alice, Inl (SqlState ''42P10''))"
    by (simp add: saveUserData_def upsert_user_data_def no_arbiter_user_data store_varchar_def
        select_users_by_key_status_def pg_text_literals pg_text_def db_alice_def alice_row_def)
  have v: "valid (verifyLicense True db_alice ''5550-2F40-DC8B-7C76'')"
    by (simp add: verifyLicense_def select_users_by_key_status_def pg_text_literals
        db_alice_def alice_row_def)
  have u: "sync_upload True True 30 db_alice ''5550-2F40-DC8B-7C76'' (Some ''notes'') (Some (JArr [JStr ''n'']))
     = (db_alice, failure 500 ''Failed to upload data'')"
    using v s by (simp add: sync_upload_def)
  from u s saveUserData_fails show ?thesis by blast
qed

section \<open>Verification: a request for an inactive License\<close>

text \<open>
  C4, as the specification states it, fails: request-license for the address of an
  inactive License returns the key, reports the status \<open>inactive\<close> and leaves the row as
  it was, status and \<open>updated_at\<close> included.
\<close>

theorem request_license_no_reactivation_counterexample:
  "status (hd (users db_alice_inactive)) = ''inactive''
   \<and> request_license True 30 db_alice_inactive ''test@example.com'' =
       (db_alice_inactive,
        ok [(''message'', JStr ''License found for this email''),
            (''licenseKey'', JStr ''5550-2F40-DC8B-7C76''), (''status'', JStr ''inactive''),
            (''created'', JTime 10)])"
proof -
  have m: "emailRegex_test ''test@example.com''"
    by (simp add: emailRegex_test_def emailRegex_def plus1_def not_space_at_def white_space_def)
  show ?thesis
    using m
    by (simp add: request_license_def select_users_by_email_def pg_text_literals db_alice_inactive_def
        alice_row_def)
qed

lemma update_status_reactivated:
  assumes "pg_text a"
  shows "update_status_by_email now d ''active'' a = Inr (reactivated now d a)"
  using assms
  by (simp add: update_status_by_email_def reactivated_def store_varchar_def pg_text_literals)

lemma reactivated_rows:
  "list_all (\<lambda>r. email r \<noteq> a \<or> (status r = ''active'' \<and> updated_at r = now))
     (users (reactivated now d a))"
  unfolding list_all_iff
proof
  fix r
  assume "r \<in> set (users (reactivated now d a))"
  then have "r \<in> set (filter (\<lambda>r. email r \<noteq> a) (users d))
      \<or> r \<in> (\<lambda>r. r\<lparr>status := ''active'', updated_at := now\<rparr>) ` set (filter (\<lambda>r. email r = a) (users d))"
    by (simp add: reactivated_def)
  then show "email r \<noteq> a \<or> (status r = ''active'' \<and> updated_at r = now)"
  proof
    assume "r \<in> set (filter (\<lambda>r. email r \<noteq> a) (users d))"
    then show ?thesis by simp
  next
    assume "r \<in> (\<lambda>r. r\<lparr>status := ''active'', updated_at := now\<rparr>) ` set (filter (\<lambda>r. email r = a) (users d))"
    then obtain x where "r = x\<lparr>status := ''active'', updated_at := now\<rparr>" by (rule imageE)
    then show ?thesis by simp
  qed
qed

lemma reactivated_others:
  "filter (\<lambda>r. email r \<noteq> a) (users (reactivated now d a)) = filter (\<lambda>r. email r \<noteq> a) (users d)"
  by (simp add: reactivated_def filter_map o_def)

lemma reactivated_keys:
  "map license_key (filter (\<lambda>r. email r = a) (users (reactivated now d a)))
     = map license_key (filter (\<lambda>r. email r = a) (users d))"
  by (simp add: reactivated_def filter_map o_def)

lemma reactivated_length: "length (users (reactivated now d a)) = length (users d)"
proof -
  have "length (filter (\<lambda>r. email r \<noteq> a) (users d)) + length (filter (\<lambda>r. email r = a) (users d))
      = length (users d)"
    using sum_length_filter_compl [of "\<lambda>r. email r = a" "users d"] by simp
  then show ?thesis by (simp add: reactivated_def)
qed

text \<open>
  C4, amended. For a valid address whose stored License is not active, request-license
  returns the existing licenseKey together with the stored status and creation time and
  leaves the store unchanged; it is generate-license that reactivates: it sets every row
  of that address to \<open>active\<close>, bumps \<open>updated_at\<close> to the time of the call, keeps the
  keys and addresses of all rows and the rows of other addresses as they are, and
  returns the existing licenseKey with the action \<open>reactivated\<close>.
\<close>

theorem inactive_license_request_and_reactivation:
  assumes "emailRegex_test addr"
    and "select_users_by_email d addr = Inr (u # us)"
    and "status u \<noteq> ''active''"
  shows "request_license True now d addr =
           (d, ok [(''message'', JStr ''License found for this email''),
                   (''licenseKey'', JStr (license_key u)), (''status'', JStr (status u)),
                   (''created'', JTime (created_at u))])
    \<and> generate_license True now d addr =
           (reactivated now d addr,
            ok [(''message'', JStr ''License reactivated''),
                (''licenseKey'', JStr (license_key u)), (''action'', JStr ''reactivated'')])
    \<and> update_status_by_email now d ''active'' addr = Inr (reactivated now d addr)
    \<and> list_all (\<lambda>r. email r \<noteq> addr \<or> (status r = ''active'' \<and> updated_at r = now))
         (users (reactivated now d addr))
    \<and> filter (\<lambda>r. email r \<noteq> addr) (users (reactivated now d addr))
         = filter (\<lambda>r. email r \<noteq> addr) (users d)
    \<and> map license_key (filter (\<lambda>r. email r = addr) (users (reactivated now d addr)))
         = map license_key (filter (\<lambda>r. email r = addr) (users d))
    \<and> length (users (reactivated now d addr)) = length (users d)"
proof -
  have ne: "addr \<noteq> []" using assms(1) by (rule email_not_empty)
  have t: "pg_text addr" using select_by_email_cases [OF assms(2)] by simp
  have 0: "update_status_by_email now d ''active'' addr = Inr (reactivated now d addr)"
    by (rule update_status_reactivated [OF t])
  have 1: "request_license True now d addr =
           (d, ok [(''message'', JStr ''License found for this email''),
                   (''licenseKey'', JStr (license_key u)), (''status'', JStr (status u)),
                   (''created'', JTime (created_at u))])"
    using assms(1,2) ne by (simp add: request_license_def)
  have 2: "generate_license True now d addr =
           (reactivated now d addr,
            ok [(''message'', JStr ''License reactivated''),
                (''licenseKey'', JStr (license_key u)), (''action'', JStr ''reactivated'')])"
    using assms ne 0 by (simp add: generate_license_def)
  show ?thesis
    by (intro conjI)
      (rule 0 1 2 reactivated_rows reactivated_others reactivated_keys reactivated_length)+
qed

theorem inactive_license_request_and_reactivation_witness:
  "request_license True 30 db_alice_inactive ''test@example.com'' =
     (db_alice_inactive,
      ok [(''message'', JStr ''License found for this email''),
          (''licenseKey'', JStr ''5550-2F40-DC8B-7C76''), (''status'', JStr ''inactive''),
          (''created'', JTime 10)])
   \<and> generate_license True 30 db_alice_inactive ''test@example.com'' =
     (\<lparr>users = [alice_row\<lparr>updated_at := 30\<rparr>], user_data = [], users_seq = 2, user_data_seq = 1\<rparr>,
      ok [(''message'', JStr ''License reactivated''),
          (''licenseKey'', JStr ''5550-2F40-DC8B-7C76''), (''action'', JStr ''reactivated'')])"
proof -
  have m: "emailRegex_test ''test@example.com''"
    by (simp add: emailRegex_test_def emailRegex_def plus1_def not_space_at_def white_space_def)
  have s: "select_users_by_email db_alice_inactive ''test@example.com''
            = Inr [alice_row\<lparr>status := ''inactive'', updated_at := 20\<rparr>]"
    by (simp add: select_users_by_email_def pg_text_literals db_alice_inactive_def alice_row_def)
  have i: "status (alice_row\<lparr>status := ''inactive'', updated_at := 20\<rparr>) \<noteq> ''active''" by simp
  from inactive_license_request_and_reactivation [OF m s i, of 30]
  show ?thesis
    by (simp add: reactivated_def db_alice_inactive_def alice_row_def)
qed

section \<open>Verification: the checkout webhook\<close>

lemma upt16: "[0..<16] = [0,1,2,3,4,5,6,7,8,9,10,11,12,13,14,15::nat]"
  by code_simp

lemma key_unrolled:
  "generateLicenseKey rnd =
     charAt key_chars (rnd 0) @ charAt key_chars (rnd 1) @ charAt key_chars (rnd 2) @ charAt key_chars (rnd 3) @ ''-'' @
     charAt key_chars (rnd 4) @ charAt key_chars (rnd 5) @ charAt key_chars (rnd 6) @ charAt key_chars (rnd 7) @ ''-'' @
     charAt key_chars (rnd 8) @ charAt key_chars (rnd 9) @ charAt key_chars (rnd 10) @ charAt key_chars (rnd 11) @ ''-'' @
     charAt key_chars (rnd 12) @ charAt key_chars (rnd 13) @ charAt key_chars (rnd 14) @ charAt key_chars (rnd 15)"
  unfolding generateLicenseKey_def upt16 by simp

lemma length_key_chars: "length key_chars = 36"
  by (simp add: key_chars_def)

lemma charAt_key_chars:
  assumes "n < 36"
  shows "length (charAt key_chars n) = 1 \<and> set (charAt key_chars n) \<subseteq> set key_chars"
proof -
  have "n < length key_chars" using assms by (simp add: length_key_chars)
  then show ?thesis by (simp add: charAt_def)
qed

lemma generateLicenseKey_format:
  assumes "\<forall>i<16. rnd i < 36"
  shows "length (generateLicenseKey rnd) = 19
       \<and> set (generateLicenseKey rnd) \<subseteq> set key_chars \<union> {CHR ''-''}"
proof -
  have c: "\<And>i. i < 16 \<Longrightarrow>
      length (charAt key_chars (rnd i)) = 1 \<and> set (charAt key_chars (rnd i)) \<subseteq> set key_chars"
    using assms charAt_key_chars by blast
  have l: "length (generateLicenseKey rnd) = 19"
    unfolding key_unrolled using c by simp
  have c2: "\<And>i. i < 16 \<Longrightarrow> set (charAt key_chars (rnd i)) \<subseteq> insert CHR ''-'' (set key_chars)"
    using c by (meson subset_insertI2)
  have s: "set (generateLicenseKey rnd) \<subseteq> set key_chars \<union> {CHR ''-''}"
    unfolding key_unrolled set_append by (simp add: c2)
  show ?thesis using l s by (rule conjI)
qed

lemma body_never_raw:
  "express_raw ct (express_urlencoded ct (express_json ct Unparsed)) \<noteq> RawBuffer"
  by (cases ct) (simp_all add: express_raw_def express_urlencoded_def express_json_def)

lemma server_webhook_store: "fst (server_webhook stripeConfigured conn now rnd d rq) = d"
  using body_never_raw [of "body_type rq"]
  by (simp add: server_webhook_def webhook_handler_def constructEvent_def Let_def)

lemma server_webhook_400: "code (snd (server_webhook True conn now rnd d rq)) = 400"
  using body_never_raw [of "body_type rq"]
  by (simp add: server_webhook_def webhook_handler_def constructEvent_def Let_def)

text \<open>
  C6 on the code. A validly signed checkout-completed event for \<open>new@example.com\<close>, which
  has no License, is answered 400 and no License is created: \<open>express.json()\<close>, mounted
  for every request, has parsed the body before the route's \<open>express.raw\<close> can keep it,
  and \<open>constructEvent\<close> refuses a parsed body. No request to \<open>/webhook\<close> changes the store,
  and with Stripe configured every request is answered 400.
\<close>

theorem checkout_event_never_processed:
  "server_webhook True True 30 (\<lambda>i. 0) db_empty
       \<lparr>body_type = ApplicationJson, signature_valid = True,
        event_type = ''checkout.session.completed'', customer_email = Some ''new@example.com''\<rparr>
     = (db_empty, \<lparr>code = 400, body = JStr ''Webhook Error''\<rparr>)
   \<and> fst (server_webhook stripeConfigured conn now rnd d rq) = d
   \<and> code (snd (server_webhook True conn now rnd d rq)) = 400"
proof -
  have "server_webhook True True 30 (\<lambda>i. 0) db_empty
       \<lparr>body_type = ApplicationJson, signature_valid = True,
        event_type = ''checkout.session.completed'', customer_email = Some ''new@example.com''\<rparr>
     = (db_empty, \<lparr>code = 400, body = JStr ''Webhook Error''\<rparr>)"
    by (simp add: server_webhook_def webhook_handler_def constructEvent_def express_raw_def
        express_urlencoded_def express_json_def)
  then show ?thesis using server_webhook_store server_webhook_400 by blast
qed

subsection \<open>The handler behind the route\<close>

lemma upsert_users_fresh:
  assumes "pg_text k" and "pg_text e" and "length k \<le> 255" and "length e \<le> 255"
    and "filter (\<lambda>r. license_key r = k) (users d) = []"
  shows "users (fst (upsert_users now d k e)) =
           users d @ [\<lparr>row_id = users_seq d, license_key = k, email = e, status = ''active'',
                       plan_type = ''premium'', created_at = now, updated_at = now\<rparr>]"
  using assms by (simp add: upsert_users_def arbiter_users store_varchar_def Let_def)

text \<open>
  Handed the raw body of a validly signed checkout-completed event, the handler draws a
  random key and upserts by it without looking the email up: for \<open>test@example.com\<close>,
  which has an active License, it adds a second License row.
\<close>

lemma checkout_handler_adds_second_license:
  "users (fst (webhook_handler True 30 (\<lambda>i. 0) db_alice RawBuffer
            \<lparr>body_type = ApplicationJson, signature_valid = True,
             event_type = ''checkout.session.completed'', customer_email = Some ''test@example.com''\<rparr>))
     = [alice_row,
        \<lparr>row_id = 2, license_key = ''AAAA-AAAA-AAAA-AAAA'', email = ''test@example.com'',
         status = ''active'', plan_type = ''premium'', created_at = 30, updated_at = 30\<rparr>]"
proof -
  have k: "generateLicenseKey (\<lambda>i. 0) = ''AAAA-AAAA-AAAA-AAAA''"
    unfolding key_unrolled by (simp add: charAt_def key_chars_def)
  show ?thesis
    by (simp add: webhook_handler_def constructEvent_def handleCheckoutCompleted_def
        activateLicense_def k upsert_users_def arbiter_users pg_text_literals store_varchar_def
        db_alice_def alice_row_def Let_def)
qed

lemma checkout_handler_new_row:
  assumes "addr \<noteq> []" and "pg_text addr" and "length addr \<le> 255" and "\<forall>i<16. rnd i < 36"
    and "filter (\<lambda>r. license_key r = generateLicenseKey rnd) (users d) = []"
  shows "users (fst (webhook_handler True now rnd d RawBuffer
                  \<lparr>body_type = ct, signature_valid = True,
                   event_type = ''checkout.session.completed'', customer_email = Some addr\<rparr>))
           = users d @ [\<lparr>row_id = users_seq d, license_key = generateLicenseKey rnd, email = addr,
                          status = ''active'', plan_type = ''premium'', created_at = now,
                          updated_at = now\<rparr>]"
proof -
  have f: "length (generateLicenseKey rnd) = 19
       \<and> set (generateLicenseKey rnd) \<subseteq> set key_chars \<union> {CHR ''-''}"
    using assms(4) by (rule generateLicenseKey_format)
  then have kl: "length (generateLicenseKey rnd) \<le> 255" by simp
  have "CHR 0x00 \<notin> set key_chars \<union> {CHR ''-''}" by (simp add: key_chars_def)
  then have kt: "pg_text (generateLicenseKey rnd)" using f unfolding pg_text_def by blast
  have w: "fst (webhook_handler True now rnd d RawBuffer
                  \<lparr>body_type = ct, signature_valid = True,
                   event_type = ''checkout.session.completed'', customer_email = Some addr\<rparr>)
            = fst (upsert_users now d (generateLicenseKey rnd) addr)"
    using assms(1)
    by (simp add: webhook_handler_def constructEvent_def handleCheckoutCompleted_def
        activateLicense_def)
  show ?thesis unfolding w by (rule upsert_users_fresh [OF kt assms(2) kl assms(3) assms(5)])
qed

section \<open>Verification: License Reconciler\<close>

lemma store_varchar_key: "store_varchar 255 (derive_spec a) = Some (derive_spec a)"
  by (simp add: store_varchar_def length_derive_spec)

lemma request_license_found:
  assumes "emailRegex_test a" and "select_users_by_email d a = Inr (u # us)"
  shows "request_license True now d a = (d, license_found u)"
  using assms email_not_empty [OF assms(1)]
  by (simp add: request_license_def license_found_def)

lemma key_absent:
  assumes "key_free_for d a" and "select_users_by_email d a = Inr []"
  shows "\<not> list_ex (\<lambda>r. license_key r = derive_spec a) (users d)"
proof
  assume "list_ex (\<lambda>r. license_key r = derive_spec a) (users d)"
  then obtain r where r: "r \<in> set (users d)" and k: "license_key r = derive_spec a"
    by (auto simp: list_ex_iff)
  from assms(1) r k have "email r = a" by (auto simp: key_free_for_def list_all_iff)
  with r have "r \<in> set (filter (\<lambda>r. email r = a) (users d))" by simp
  with select_by_email_cases [OF assms(2)] show False by simp
qed

lemma insert_users_fresh:
  assumes "emailRegex_test a" and "length a \<le> 255" and "pg_text a"
    and "\<not> list_ex (\<lambda>r. license_key r = derive_spec a) (users d)"
  shows "insert_users now d (derive_spec a) a
           = (with_row d (derived_row (users_seq d) now a), Inr (derived_row (users_seq d) now a))"
  using assms
  by (simp add: insert_users_def pg_text_derive_spec store_varchar_key store_varchar_email
      derived_row_def with_row_def Let_def)

lemma request_license_created:
  assumes "emailRegex_test a" and "length a \<le> 255"
    and "key_free_for d a" and "select_users_by_email d a = Inr []"
  shows "request_license True now d a
           = (with_row d (derived_row (users_seq d) now a), license_created a now)"
  using assms(1,4) email_not_empty [OF assms(1)]
    insert_users_fresh [OF assms(1,2) conjunct1 [OF select_by_email_cases [OF assms(4)]]
      key_absent [OF assms(3,4)], of now]
  by (simp add: request_license_def generate_is_derive license_created_def derived_row_def)

lemma select_with_row:
  assumes "select_users_by_email d a = Inr []"
  shows "select_users_by_email (with_row d (derived_row i now a)) a = Inr [derived_row i now a]"
  using assms
  by (simp add: select_users_by_email_def with_row_def derived_row_def split: if_splits)

lemma request_license_rejected_address:
  assumes "emailRegex_test a" and "\<not> pg_text a"
  shows "request_license True now d a = (d, failure 500 ''Failed to process license request'')"
  using assms email_not_empty [OF assms(1)]
  by (simp add: request_license_def select_users_by_email_def)

text \<open>
  C3, as the specification states it, fails: on the fresh store the first
  request-license for \<open>x@y.com\<close> carries no \<open>created\<close> flag at all, and the second reports
  \<open>created\<close> as the creation time of the License, not as \<open>false\<close>.
\<close>

theorem request_license_created_flag_counterexample:
  "field ''created'' (body (snd (request_license True 1 db_empty ''x@y.com''))) = None
   \<and> field ''created''
        (body (snd (request_license True 2 (fst (request_license True 1 db_empty ''x@y.com'')) ''x@y.com'')))
       = Some (JTime 1)"
proof -
  have m: "emailRegex_test ''x@y.com''"
    by (simp add: emailRegex_test_def emailRegex_def plus1_def not_space_at_def white_space_def)
  have l: "length ''x@y.com'' \<le> 255" by simp
  have s: "select_users_by_email db_empty ''x@y.com'' = Inr []"
    by (simp add: select_users_by_email_def pg_text_literals db_empty_def)
  have f: "key_free_for db_empty ''x@y.com''" by (simp add: key_free_for_def db_empty_def)
  have 1: "request_license True 1 db_empty ''x@y.com''
      = (with_row db_empty (derived_row (users_seq db_empty) 1 ''x@y.com''), license_created ''x@y.com'' 1)"
    by (rule request_license_created [OF m l f s])
  have 2: "request_license True 2 (with_row db_empty (derived_row (users_seq db_empty) 1 ''x@y.com'')) ''x@y.com''
      = (with_row db_empty (derived_row (users_seq db_empty) 1 ''x@y.com''),
         license_found (derived_row (users_seq db_empty) 1 ''x@y.com''))"
    by (rule request_license_found [OF m select_with_row [OF s]])
  show ?thesis
    unfolding 1 fst_conv snd_conv 2
    by (simp add: license_created_def license_found_def ok_def derived_row_def)
qed

text \<open>
  C3, amended. For every valid email of at most 255 characters that the store accepts
  as a parameter (it holds no U+0000) and whose derived key is not held by a row of
  another address (store in reach): two sequential request-license calls return the
  identical licenseKey and the second leaves the store unchanged. When the email has no
  License yet, the first call inserts the active License under the derived key and
  answers "License created successfully" (with no \<open>created\<close> flag), and the second
  answers "License found for this email" with that key, status \<open>active\<close>, and \<open>created\<close>
  set to the creation time. When the email has a License, both calls give that same
  answer for the stored row.
\<close>

theorem two_requests_same_key:
  assumes "emailRegex_test addr" and "length addr \<le> 255" and "pg_text addr"
    and "key_free_for d addr"
  shows "(select_users_by_email d addr = Inr [] \<longrightarrow>
            request_license True t1 d addr
              = (with_row d (derived_row (users_seq d) t1 addr), license_created addr t1)
          \<and> request_license True t2 (with_row d (derived_row (users_seq d) t1 addr)) addr
              = (with_row d (derived_row (users_seq d) t1 addr),
                 license_found (derived_row (users_seq d) t1 addr))
          \<and> field ''licenseKey'' (body (license_created addr t1)) = Some (JStr (derive_spec addr))
          \<and> field ''licenseKey'' (body (license_found (derived_row (users_seq d) t1 addr)))
              = Some (JStr (derive_spec addr))
          \<and> field ''created'' (body (license_found (derived_row (users_seq d) t1 addr)))
              = Some (JTime t1))
       \<and> (\<forall>u us. select_users_by_email d addr = Inr (u # us) \<longrightarrow>
            request_license True t1 d addr = (d, license_found u)
          \<and> request_license True t2 d addr = (d, license_found u)
          \<and> field ''licenseKey'' (body (license_found u)) = Some (JStr (license_key u)))
       \<and> select_users_by_email d addr = Inr (filter (\<lambda>r. email r = addr) (users d))"
proof (intro conjI impI allI)
  assume s: "select_users_by_email d addr = Inr []"
  show "request_license True t1 d addr
      = (with_row d (derived_row (users_seq d) t1 addr), license_created addr t1)"
    by (rule request_license_created [OF assms(1,2,4) s])
  show "request_license True t2 (with_row d (derived_row (users_seq d) t1 addr)) addr
      = (with_row d (derived_row (users_seq d) t1 addr),
         license_found (derived_row (users_seq d) t1 addr))"
    by (rule request_license_found [OF assms(1) select_with_row [OF s]])
next
  show "field ''licenseKey'' (body (license_created addr t1)) = Some (JStr (derive_spec addr))"
    by (simp add: license_created_def ok_def)
  show "field ''licenseKey'' (body (license_found (derived_row (users_seq d) t1 addr)))
      = Some (JStr (derive_spec addr))"
    by (simp add: license_found_def ok_def derived_row_def)
  show "field ''created'' (body (license_found (derived_row (users_seq d) t1 addr))) = Some (JTime t1)"
    by (simp add: license_found_def ok_def derived_row_def)
next
  fix u us
  assume s: "select_users_by_email d addr = Inr (u # us)"
  show "request_license True t1 d addr = (d, license_found u)"
    by (rule request_license_found [OF assms(1) s])
  show "request_license True t2 d addr = (d, license_found u)"
    by (rule request_license_found [OF assms(1) s])
  show "field ''licenseKey'' (body (license_found u)) = Some (JStr (license_key u))"
    by (simp add: license_found_def ok_def)
next
  show "select_users_by_email d addr = Inr (filter (\<lambda>r. email r = addr) (users d))"
    using assms(3) by (simp add: select_users_by_email_def)
qed

theorem two_requests_same_key_witness:
  "request_license True 1 db_empty ''x@y.com''
     = (with_row db_empty (derived_row 1 1 ''x@y.com''), license_created ''x@y.com'' 1)
   \<and> request_license True 2 (with_row db_empty (derived_row 1 1 ''x@y.com'')) ''x@y.com''
     = (with_row db_empty (derived_row 1 1 ''x@y.com''), license_found (derived_row 1 1 ''x@y.com''))
   \<and> users (with_row db_empty (derived_row 1 1 ''x@y.com''))
     = [\<lparr>row_id = 1, license_key = derive_spec ''x@y.com'', email = ''x@y.com'', status = ''active'',
         plan_type = ''premium'', created_at = 1, updated_at = 1\<rparr>]"
proof -
  have m: "emailRegex_test ''x@y.com''"
    by (simp add: emailRegex_test_def emailRegex_def plus1_def not_space_at_def white_space_def)
  have l: "length ''x@y.com'' \<le> 255" by simp
  have s: "select_users_by_email db_empty ''x@y.com'' = Inr []"
    by (simp add: select_users_by_email_def pg_text_literals db_empty_def)
  have f: "key_free_for db_empty ''x@y.com''" by (simp add: key_free_for_def db_empty_def)
  have q: "users_seq db_empty = 1" by (simp add: db_empty_def)
  from two_requests_same_key [OF m l pg_text_literals(5) f, of 1 2] s q
  show ?thesis by (simp add: with_row_def derived_row_def db_empty_def)
qed

section \<open>Verification: one License per email\<close>

text \<open>
  C1, as the specification states it, fails: two activate-license calls with different
  keys and the same address leave two License rows for that address.
\<close>

theorem two_licenses_one_email_counterexample:
  "\<not> one_license_per_email
       (fst (activate_license True 2
          (fst (activate_license True 1 db_empty ''AAAA-AAAA-AAAA-AAAA'' ''x@y.com''))
          ''BBBB-BBBB-BBBB-BBBB'' ''x@y.com''))"
proof -
  have m: "emailRegex_test ''x@y.com''"
    by (simp add: emailRegex_test_def emailRegex_def plus1_def not_space_at_def white_space_def)
  have 1: "fst (activate_license True 1 db_empty ''AAAA-AAAA-AAAA-AAAA'' ''x@y.com'')
      = \<lparr>users = [\<lparr>row_id = 1, license_key = ''AAAA-AAAA-AAAA-AAAA'', email = ''x@y.com'',
                    status = ''active'', plan_type = ''premium'', created_at = 1, updated_at = 1\<rparr>],
         user_data = [], users_seq = 2, user_data_seq = 1\<rparr>"
    using m
    by (simp add: activate_license_def activateLicense_def upsert_users_def arbiter_users
        pg_text_literals store_varchar_def db_empty_def Let_def)
  have 2: "users (fst (activate_license True 2
          (fst (activate_license True 1 db_empty ''AAAA-AAAA-AAAA-AAAA'' ''x@y.com''))
          ''BBBB-BBBB-BBBB-BBBB'' ''x@y.com''))
      = [\<lparr>row_id = 1, license_key = ''AAAA-AAAA-AAAA-AAAA'', email = ''x@y.com'',
          status = ''active'', plan_type = ''premium'', created_at = 1, updated_at = 1\<rparr>,
         \<lparr>row_id = 2, license_key = ''BBBB-BBBB-BBBB-BBBB'', email = ''x@y.com'',
          status = ''active'', plan_type = ''premium'', created_at = 2, updated_at = 2\<rparr>]"
    unfolding 1 using m
    by (simp add: activate_license_def activateLicense_def upsert_users_def arbiter_users
        pg_text_literals store_varchar_def Let_def)
  show ?thesis unfolding one_license_per_email_def 2 by simp
qed

lemma derive_spec_lower: "toLowerCase a = toLowerCase b \<Longrightarrow> derive_spec a = derive_spec b"
  by (simp add: derive_spec_def)

lemma distinct_map_coarser:
  assumes "distinct (map f xs)" and "\<And>x y. h x = h y \<Longrightarrow> f x = f y"
  shows "distinct (map h xs)"
  using assms(1)
proof (induction xs)
  case Nil
  then show ?case by simp
next
  case (Cons x xs)
  have "h x \<notin> h ` set xs"
  proof
    assume "h x \<in> h ` set xs"
    then obtain y where y: "y \<in> set xs" and "h x = h y" by auto
    then have "f x = f y" using assms(2) by blast
    with y have "f x \<in> f ` set xs" by auto
    with Cons.prems show False by simp
  qed
  with Cons show ?case by simp
qed

lemma derived_store_one_per_email:
  assumes "derived_store d"
  shows "one_license_per_email d"
proof -
  from assms have k: "map license_key (users d) = map (\<lambda>r. derive_spec (email r)) (users d)"
    by (auto simp: derived_store_def list_all_iff)
  from assms have "distinct (map license_key (users d))" by (simp add: derived_store_def)
  then have "distinct (map (\<lambda>r. derive_spec (email r)) (users d))" using k by simp
  then show ?thesis
    unfolding one_license_per_email_def
    by (rule distinct_map_coarser) (rule derive_spec_lower)
qed

lemma derived_store_seq: "derived_store (d\<lparr>users_seq := n\<rparr>) = derived_store d"
  by (simp add: derived_store_def)

lemma derived_store_insert:
  assumes "derived_store d" and "emailRegex_test a"
  shows "derived_store (fst (insert_users now d (derive_spec a) a))"
proof (cases "length a \<le> 255 \<and> pg_text a
    \<and> \<not> list_ex (\<lambda>r. license_key r = derive_spec a) (users d)")
  case True
  then have i: "fst (insert_users now d (derive_spec a) a) = with_row d (derived_row (users_seq d) now a)"
    using insert_users_fresh [OF assms(2), of d now] by simp
  from True have "derive_spec a \<notin> license_key ` set (users d)" by (auto simp: list_ex_iff)
  then show ?thesis
    unfolding i using assms(1)
    by (simp add: derived_store_def with_row_def derived_row_def)
next
  case False
  then have "fst (insert_users now d (derive_spec a) a) = d
      \<or> fst (insert_users now d (derive_spec a) a) = d\<lparr>users_seq := Suc (users_seq d)\<rparr>"
    using assms(2)
    by (auto simp: insert_users_def pg_text_derive_spec store_varchar_key store_varchar_email Let_def)
  then show ?thesis using assms(1) by (auto simp: derived_store_seq)
qed

lemma request_license_store:
  "fst (request_license conn now d a) = d
   \<or> (emailRegex_test a \<and> fst (request_license conn now d a) = fst (insert_users now d (derive_spec a) a))"
  by (simp add: request_license_def generate_is_derive split: list.splits prod.splits sum.splits)

lemma derived_store_request:
  assumes "derived_store d"
  shows "derived_store (fst (request_license conn now d a))"
  using request_license_store [of conn now d a] derived_store_insert [OF assms, of a now] assms
  by auto

lemma request_many_found:
  assumes "emailRegex_test a" and "select_users_by_email d a = Inr (u # us)"
  shows "request_many d ts a = (d, replicate (length ts) (license_found u))"
  by (induction ts) (simp_all add: request_license_found [OF assms])

lemma request_many_created:
  assumes "emailRegex_test a" and "length a \<le> 255"
    and "key_free_for d a" and "select_users_by_email d a = Inr []"
  shows "request_many d (t # ts) a
           = (with_row d (derived_row (users_seq d) t a),
              license_created a t # replicate (length ts) (license_found (derived_row (users_seq d) t a)))"
  using request_license_created [OF assms, of t]
    request_many_found [OF assms(1) select_with_row [OF assms(4)], of "users_seq d" t ts]
  by simp

lemma request_many_rejected:
  assumes "emailRegex_test a" and "\<not> pg_text a"
  shows "request_many d ts a
           = (d, replicate (length ts) (failure 500 ''Failed to process license request''))"
  by (induction ts) (simp_all add: request_license_rejected_address [OF assms])

text \<open>
  C1, amended. Uniqueness per email is not a property of every reachable store: the
  store keeps license keys unique, and request-license keeps every row under the key
  derived from its address. In the stores built that way - the fresh store is one, and
  request-license leads from one to another - at most one License row exists per
  normalized email. On any store, sequential request-license calls for one valid email
  of at most 255 characters that the store accepts as a parameter (it holds no U+0000)
  and whose derived key is not held by a row of another address create exactly one
  License row when the email has none (the first call creates it, the later ones find
  it) and none when it has one, and all responses carry the same licenseKey.
\<close>

theorem request_license_one_row_per_email:
  "derived_store db_empty
   \<and> (derived_store d \<longrightarrow>
        derived_store (fst (request_license conn now d a)) \<and> one_license_per_email d)
   \<and> (emailRegex_test addr \<and> length addr \<le> 255 \<and> pg_text addr \<and> key_free_for d addr
        \<and> select_users_by_email d addr = Inr [] \<longrightarrow>
        request_many d (t # ts) addr
          = (with_row d (derived_row (users_seq d) t addr),
             license_created addr t
               # replicate (length ts) (license_found (derived_row (users_seq d) t addr)))
        \<and> select_users_by_email (with_row d (derived_row (users_seq d) t addr)) addr
            = Inr [derived_row (users_seq d) t addr]
        \<and> field ''licenseKey'' (body (license_created addr t)) = Some (JStr (derive_spec addr))
        \<and> field ''licenseKey'' (body (license_found (derived_row (users_seq d) t addr)))
            = Some (JStr (derive_spec addr)))
   \<and> (\<forall>u us. emailRegex_test addr \<and> select_users_by_email d addr = Inr (u # us) \<longrightarrow>
        request_many d ts addr = (d, replicate (length ts) (license_found u)))"
proof (intro conjI impI allI)
  show "derived_store db_empty" by (simp add: derived_store_def db_empty_def)
next
  assume "derived_store d"
  then show "derived_store (fst (request_license conn now d a))" by (rule derived_store_request)
next
  assume "derived_store d"
  then show "one_license_per_email d" by (rule derived_store_one_per_email)
next
  assume h: "emailRegex_test addr \<and> length addr \<le> 255 \<and> pg_text addr \<and> key_free_for d addr
        \<and> select_users_by_email d addr = Inr []"
  then show "request_many d (t # ts) addr
          = (with_row d (derived_row (users_seq d) t addr),
             license_created addr t
               # replicate (length ts) (license_found (derived_row (users_seq d) t addr)))"
    using request_many_created by blast
  from h show "select_users_by_email (with_row d (derived_row (users_seq d) t addr)) addr
            = Inr [derived_row (users_seq d) t addr]"
    using select_with_row by blast
next
  show "field ''licenseKey'' (body (license_created addr t)) = Some (JStr (derive_spec addr))"
    by (simp add: license_created_def ok_def)
  show "field ''licenseKey'' (body (license_found (derived_row (users_seq d) t addr)))
            = Some (JStr (derive_spec addr))"
    by (simp add: license_found_def ok_def derived_row_def)
next
  fix u us
  assume "emailRegex_test addr \<and> select_users_by_email d addr = Inr (u # us)"
  then show "request_many d ts addr = (d, replicate (length ts) (license_found u))"
    using request_many_found by blast
qed

theorem request_license_one_row_per_email_witness:
  "derived_store db_empty
   \<and> one_license_per_email db_empty
   \<and> request_many db_empty [1, 2, 3] ''x@y.com''
       = (with_row db_empty (derived_row 1 1 ''x@y.com''),
          [license_created ''x@y.com'' 1, license_found (derived_row 1 1 ''x@y.com''),
           license_found (derived_row 1 1 ''x@y.com'')])
   \<and> select_users_by_email (with_row db_empty (derived_row 1 1 ''x@y.com'')) ''x@y.com''
       = Inr [derived_row 1 1 ''x@y.com'']"
proof -
  have m: "emailRegex_test ''x@y.com''"
    by (simp add: emailRegex_test_def emailRegex_def plus1_def not_space_at_def white_space_def)
  have l: "length ''x@y.com'' \<le> 255" by simp
  have s: "select_users_by_email db_empty ''x@y.com'' = Inr []"
    by (simp add: select_users_by_email_def pg_text_literals db_empty_def)
  have f: "key_free_for db_empty ''x@y.com''" by (simp add: key_free_for_def db_empty_def)
  have q: "users_seq db_empty = 1" by (simp add: db_empty_def)
  from request_license_one_row_per_email [of db_empty True 1 "''x@y.com''" "''x@y.com''" 1 "[2, 3]"]
    m l s f q pg_text_literals(5)
  show ?thesis by (simp add: numeral_eq_Suc)
qed

subsection \<open>Two requests whose lookups both precede the inserts\<close>

lemma request_license_insert_eq:
  assumes "emailRegex_test a" and "select_users_by_email d a = Inr []"
  shows "request_license True now d a = request_license_insert now d a"
  using assms email_not_empty [OF assms(1)]
  by (simp add: request_license_def request_license_insert_def)

lemma insert_users_taken:
  assumes "emailRegex_test a" and "length a \<le> 255" and "pg_text a"
    and "list_ex (\<lambda>r. license_key r = derive_spec a) (users d)"
  shows "insert_users now d (derive_spec a) a
           = (d\<lparr>users_seq := Suc (users_seq d)\<rparr>, Inl (SqlState ''23505''))"
  using assms
  by (simp add: insert_users_def pg_text_derive_spec store_varchar_key store_varchar_email Let_def)

text \<open>
  In that schedule the unique key lets one row in, as in the sequential case, but the
  request that inserts second is answered 500 and carries no licenseKey.
\<close>

lemma request_license_race_loser:
  assumes "emailRegex_test a" and "length a \<le> 255"
    and "key_free_for d a" and "select_users_by_email d a = Inr []"
  shows "request_license_race t1 t2 d a
           = ((with_row d (derived_row (users_seq d) t1 a))\<lparr>users_seq := Suc (Suc (users_seq d))\<rparr>,
              license_created a t1,
              failure 500 ''Failed to process license request'')"
proof -
  define d1 where "d1 = with_row d (derived_row (users_seq d) t1 a)"
  have 1: "request_license_insert t1 d a = (d1, license_created a t1)"
    using request_license_created [OF assms, of t1] request_license_insert_eq [OF assms(1,4), of t1]
    by (simp add: d1_def)
  have "list_ex (\<lambda>r. license_key r = derive_spec a) (users d1)"
    by (simp add: d1_def with_row_def derived_row_def)
  then have 2: "insert_users t2 d1 (derive_spec a) a
      = (d1\<lparr>users_seq := Suc (users_seq d1)\<rparr>, Inl (SqlState ''23505''))"
    by (rule insert_users_taken [OF assms(1,2) conjunct1 [OF select_by_email_cases [OF assms(4)]]])
  have 3: "request_license_insert t2 d1 a
      = (d1\<lparr>users_seq := Suc (users_seq d1)\<rparr>, failure 500 ''Failed to process license request'')"
    by (simp add: request_license_insert_def generate_is_derive 2)
  have 4: "d1\<lparr>users_seq := Suc (users_seq d1)\<rparr> = d1\<lparr>users_seq := Suc (Suc (users_seq d))\<rparr>"
    by (simp add: d1_def with_row_def)
  have "request_license_race t1 t2 d a
      = (d1\<lparr>users_seq := Suc (Suc (users_seq d))\<rparr>, license_created a t1,
         failure 500 ''Failed to process license request'')"
    by (simp add: request_license_race_def 1 3 4)
  then show ?thesis by (simp add: d1_def)
qed

end
